theory Spec2Isabelle
  imports Complex_Main "HOL-Library.Word"
begin

section \<open>The stream handler of core/pkg/server/handler.go\<close>

text \<open>
  The handler is a single-threaded consumer of records. It is embedded as a state record
  that every handler function takes and returns. Everything the handler does to the
  outside (a record sent on the forward channel, a result sent on the out channel, a log
  line, a call into a collaborator) is appended to one ordered list of events, so that
  claims about order are claims about that list.

  A Go panic (a nil dereference, a fatal log) is the value \<open>Inl\<close> of the result.
\<close>

subsection \<open>Messages\<close>

type_synonym int64 = "64 word"
type_synonym int32 = "32 word"

text \<open>service.HistoryItem and service.SummaryItem both carry a key and a JSON text; the
  handler reads nothing else of them, and the summary code is generic over the two.\<close>

record HistoryItem =
  Key :: string
  ValueJson :: string

type_synonym SummaryItem = HistoryItem

record HistoryStep =
  Num :: int64

record HistoryRecord =
  Step :: "HistoryStep option"
  Item :: "HistoryItem list"

record HistoryAction =
  Flush :: bool

record PartialHistoryRequest =
  ReqItem :: "HistoryItem list"
  ReqStep :: "HistoryStep option"
  ReqAction :: "HistoryAction option"

record MetricOptions =
  StepSync :: bool
  Hidden :: bool
  Defined :: bool

record MetricRecord =
  Name :: string
  GlobName :: string
  StepMetric :: string
  Options :: "MetricOptions option"

record SummaryRecord =
  Update :: "SummaryItem list"

record RunExitRecord =
  ExitCode :: int32
  Runtime :: int32

record Control =
  AlwaysSend :: bool
  Local :: bool
  ReqResp :: bool

text \<open>The defer states; the protobuf enum is open, so any other number can arrive.\<close>

datatype DeferState =
    BEGIN | FLUSH_RUN | FLUSH_STATS | FLUSH_PARTIAL_HISTORY | FLUSH_TB | FLUSH_SUM
  | FLUSH_DEBOUNCER | FLUSH_OUTPUT | FLUSH_JOB | FLUSH_DIR | FLUSH_FP | JOIN_FP
  | FLUSH_FS | FLUSH_FINAL | END | UnknownDeferState int

record DeferRequest =
  State :: DeferState

text \<open>The kinds of requests and records whose handlers are embedded below. The
  remaining kinds of the two unions (alerts, artifacts, run start and so on) have handlers
  that none of the embedded functions calls; they stand behind one constructor each, which
  carries the name of the kind.\<close>

datatype RequestType =
    Request_Defer DeferRequest
  | Request_PartialHistory PartialHistoryRequest
  | Request_PollExit
  | Request_Other string

datatype RecordType =
    Record_Exit RunExitRecord
  | Record_Final
  | Record_Footer
  | Record_History HistoryRecord
  | Record_Metric MetricRecord
  | Record_Summary SummaryRecord
  | Record_Request RequestType
  | Record_Other string

record Record =
  RecordType :: RecordType
  RControl :: "Control option"
  Uuid :: string

record FilePusherStats =
  UploadedBytes :: int
  TotalBytes :: int
  DedupedBytes :: int

record FileCounts =
  WandbCount :: int
  MediaCount :: int
  ArtifactCount :: int
  OtherCount :: int

record PollExitResponse =
  PusherStats :: "FilePusherStats option"
  FileCountsOf :: "FileCounts option"
  Done :: bool

datatype ResponseType =
    Response_empty
  | Response_PollExitResponse PollExitResponse

record Result =
  Response :: ResponseType
  ResultControl :: "Control option"
  ResultUuid :: string

subsection \<open>Effects\<close>

datatype error = NilPointer

datatype Event =
    Fwd Record
  | Out Result
  | LogWarn string
  | LogError string
  | MonitorStop
  | TBClose
  | UploadRemaining
  | UploadNow string
  | WriteFile string string "string \<rightharpoonup> string"
  | SetDoneCalled

definition bindE :: "error + 'a \<Rightarrow> ('a \<Rightarrow> error + 'b) \<Rightarrow> error + 'b" where
  "bindE m f = (case m of Inl e \<Rightarrow> Inl e | Inr x \<Rightarrow> f x)"

subsection \<open>Formatting\<close>

text \<open>fmt.Sprintf with the verb %d on a signed integer.\<close>

definition digitChar :: "nat \<Rightarrow> char" where
  "digitChar n = ''0123456789'' ! n"

function natToDec :: "nat \<Rightarrow> string" where
  "natToDec n = (if n < 10 then [digitChar n] else natToDec (n div 10) @ [digitChar (n mod 10)])"
  by pat_completeness auto
termination
  by (relation "measure id") auto

declare natToDec.simps [simp del]

definition fmtInt :: "int \<Rightarrow> string" where
  "fmtInt i = (if i < 0 then CHR ''-'' # natToDec (nat (- i)) else natToDec (nat i))"

subsection \<open>Collaborators that are not in handler.go\<close>

text \<open>
  What the handler needs of the Go library and of floating point is a parameter: the two
  float types are type variables, and parsing, subtracting and printing them are functions
  of the environment. \<open>globMatch\<close> is filepath.Match.
\<close>

record ('f, 'g) Env =
  parseFloat64 :: "string \<Rightarrow> 'f option"
  subFloat64 :: "'f \<Rightarrow> 'f \<Rightarrow> 'f"
  zeroFloat64 :: 'f
  fmtFloat64 :: "'f \<Rightarrow> string"
  unmarshalFloat32 :: "string \<Rightarrow> 'g option"
  globMatch :: "string \<Rightarrow> string \<Rightarrow> bool"

record RunRecord =
  StartingStep :: int64

record Settings =
  XSync :: bool
  XShared :: bool
  FilesDir :: string

text \<open>Modelled from the spec: the Timer type is not in handler.go. It is a run clock with
  a start time, pause and resume, and a readout of the elapsed time. The wall clock is
  outside the embedding: \<open>elapsedSeconds\<close> is what \<open>int32(Elapsed().Seconds())\<close> yields
  when it is read.\<close>

record 'f Timer =
  startTimeMicro :: 'f
  isPaused :: bool
  elapsedSeconds :: int32


text \<open>Modelled from the spec: the file-transfer statistics source, with the four calls
  GetFilesStats, GetFileCounts, IsDone and SetDone.\<close>

record FileTransferStats =
  filesStats :: FilePusherStats
  fileCounts :: FileCounts
  isDone :: bool

definition SetDone :: "FileTransferStats \<Rightarrow> FileTransferStats" where
  "SetDone fs = fs\<lparr>isDone := True\<rparr>"

text \<open>Modelled from the spec: the active history, a per-step accumulator of history items
  with a flush callback. Items are appended as they arrive; looking a key up gives its
  latest item. The callback is one of the two closures that handler.go builds, or absent.\<close>

datatype FlushCallback = FlushWithStep | FlushWithoutStep

record ActiveHistory =
  values_of :: "HistoryItem list"
  step :: "HistoryStep option"
  flush :: "FlushCallback option"

definition NewActiveHistory :: "HistoryStep option \<Rightarrow> FlushCallback option \<Rightarrow> ActiveHistory" where
  "NewActiveHistory s f = \<lparr>values_of = [], step = s, flush = f\<rparr>"

definition UpdateValues :: "ActiveHistory \<Rightarrow> HistoryItem list \<Rightarrow> ActiveHistory" where
  "UpdateValues ah items = ah\<lparr>values_of := values_of ah @ items\<rparr>"

definition UpdateStep :: "ActiveHistory \<Rightarrow> int64 \<Rightarrow> ActiveHistory" where
  "UpdateStep ah n = ah\<lparr>step := Some \<lparr>Num = n\<rparr>\<rparr>"

definition GetItem :: "ActiveHistory \<Rightarrow> string \<Rightarrow> HistoryItem option" where
  "GetItem ah k = find (\<lambda>i. Key i = k) (rev (values_of ah))"

definition Clear :: "ActiveHistory \<Rightarrow> ActiveHistory" where
  "Clear ah = ah\<lparr>values_of := []\<rparr>"

text \<open>Modelled from the spec: the metric registry, with the exact-name definitions and the
  glob definitions, the latter in insertion order (first match wins).\<close>

record MetricHandler =
  definedMetrics :: "string \<rightharpoonup> MetricRecord"
  globMetrics :: "(string \<times> MetricRecord) list"

fun updateGlob :: "string \<Rightarrow> MetricRecord \<Rightarrow> (string \<times> MetricRecord) list \<Rightarrow> (string \<times> MetricRecord) list" where
  "updateGlob k m [] = [(k, m)]"
| "updateGlob k m (p # ps) = (if fst p = k then (k, m) # ps else p # updateGlob k m ps)"

text \<open>Modelled from the spec: the first glob whose pattern matches the key gives a new
  metric that inherits the glob's options, with the key as its name.\<close>

fun createMatchingGlobMetric :: "('f, 'g) Env \<Rightarrow> (string \<times> MetricRecord) list \<Rightarrow> string \<Rightarrow> MetricRecord option" where
  "createMatchingGlobMetric env [] k = None"
| "createMatchingGlobMetric env ((g, m) # gs) k =
     (if globMatch env g k then Some (m\<lparr>Name := k, GlobName := ''''\<rparr>)
      else createMatchingGlobMetric env gs k)"

text \<open>Modelled from the spec: the summary handler holds the consolidated summary (key to
  latest JSON text) and the delta (the keys changed since the last forwarded summary, here
  in the order they first changed). Consolidation is last-writer-wins and returns the
  pairs it wrote; they are then recorded into the delta.\<close>

record SummaryHandler =
  consolidatedSummary :: "string \<rightharpoonup> string"
  summaryDelta :: "(string \<times> string) list"

definition ConsolidateSummaryItems :: "(string \<rightharpoonup> string) \<Rightarrow> SummaryItem list \<Rightarrow> (string \<rightharpoonup> string) \<times> SummaryRecord" where
  "ConsolidateSummaryItems cs items =
     (foldl (\<lambda>m i. m(Key i \<mapsto> ValueJson i)) cs items,
      \<lparr>Update = map (\<lambda>i. \<lparr>Key = Key i, ValueJson = ValueJson i\<rparr>) items\<rparr>)"

fun updateDelta :: "string \<Rightarrow> string \<Rightarrow> (string \<times> string) list \<Rightarrow> (string \<times> string) list" where
  "updateDelta k v [] = [(k, v)]"
| "updateDelta k v (p # ps) = (if fst p = k then (k, v) # ps else p # updateDelta k v ps)"

definition updateSummaryDelta :: "(string \<times> string) list \<Rightarrow> SummaryRecord \<Rightarrow> (string \<times> string) list" where
  "updateSummaryDelta d r = foldl (\<lambda>d i. updateDelta (Key i) (ValueJson i) d) d (Update r)"

text \<open>Modelled from the spec: a per-key reservoir with a capacity and a weight parameter.
  Which values a reservoir keeps is random; the model records the values handed to Add.\<close>

record 'g ReservoirSampler =
  capacity :: nat
  weight :: real
  added :: "'g list"

definition NewReservoirSampler :: "nat \<Rightarrow> real \<Rightarrow> 'g ReservoirSampler" where
  "NewReservoirSampler k d = \<lparr>capacity = k, weight = d, added = []\<rparr>"

definition Add :: "'g ReservoirSampler \<Rightarrow> 'g \<Rightarrow> 'g ReservoirSampler" where
  "Add s v = s\<lparr>added := added s @ [v]\<rparr>"

subsection \<open>The handler\<close>

record ('f, 'g) Handler =
  settings :: Settings
  timer :: "'f Timer"
  runRecord :: "RunRecord option"
  summaryHandler :: "SummaryHandler option"
  activeHistory :: "ActiveHistory option"
  samplers :: "(string \<rightharpoonup> 'g ReservoirSampler) option"
  metricHandler :: "MetricHandler option"
  runfilesUploaderPresent :: bool
  fileTransferStats :: "FileTransferStats option"
  internalPrinter :: "string list"
  events :: "Event list"

definition emit :: "Event \<Rightarrow> ('f, 'g) Handler \<Rightarrow> ('f, 'g) Handler" where
  "emit e h = h\<lparr>events := events h @ [e]\<rparr>"

text \<open>respond sends a result on the out channel.\<close>

definition respond :: "('f, 'g) Handler \<Rightarrow> Record \<Rightarrow> ResponseType \<Rightarrow> ('f, 'g) Handler" where
  "respond h record response =
     emit (Out \<lparr>Response = response, ResultControl = RControl record, ResultUuid = Uuid record\<rparr>) h"

text \<open>fwdRecord forwards a record to the writer; a nil record is dropped.\<close>

definition fwdRecord :: "('f, 'g) Handler \<Rightarrow> Record option \<Rightarrow> ('f, 'g) Handler" where
  "fwdRecord h record = (case record of None \<Rightarrow> h | Some r \<Rightarrow> emit (Fwd r) h)"

definition emptyControl :: Control where
  "emptyControl = \<lparr>AlwaysSend = False, Local = False, ReqResp = False\<rparr>"

definition fwdRecordWithControl :: "('f, 'g) Handler \<Rightarrow> Record option \<Rightarrow> (Control \<Rightarrow> Control) list \<Rightarrow> ('f, 'g) Handler" where
  "fwdRecordWithControl h record controlOptions =
     (case record of
        None \<Rightarrow> h
      | Some r \<Rightarrow>
          let control = (case RControl r of None \<Rightarrow> emptyControl | Some c \<Rightarrow> c)
          in fwdRecord h (Some (r\<lparr>RControl := Some (foldl (\<lambda>c opt. opt c) control controlOptions)\<rparr>)))"

definition handleRequestPollExit :: "('f, 'g) Handler \<Rightarrow> Record \<Rightarrow> ('f, 'g) Handler" where
  "handleRequestPollExit h record =
     (let pollExitResponse =
        (case fileTransferStats h of
           Some fs \<Rightarrow> \<lparr>PusherStats = Some (filesStats fs), FileCountsOf = Some (fileCounts fs), Done = isDone fs\<rparr>
         | None \<Rightarrow> \<lparr>PusherStats = None, FileCountsOf = None, Done = True\<rparr>)
      in respond h record (Response_PollExitResponse pollExitResponse))"


text \<open>handleFinal and handleFooter synthesize their record, unless sync is enabled.\<close>

definition handleFinal :: "('f, 'g) Handler \<Rightarrow> ('f, 'g) Handler" where
  "handleFinal h =
     (if XSync (settings h) then h
      else fwdRecordWithControl h
             (Some \<lparr>RecordType = Record_Final, RControl = None, Uuid = ''''\<rparr>)
             [\<lambda>control. control\<lparr>AlwaysSend := False\<rparr>])"

definition handleFooter :: "('f, 'g) Handler \<Rightarrow> ('f, 'g) Handler" where
  "handleFooter h =
     (if XSync (settings h) then h
      else fwdRecordWithControl h
             (Some \<lparr>RecordType = Record_Footer, RControl = None, Uuid = ''''\<rparr>)
             [\<lambda>control. control\<lparr>AlwaysSend := False\<rparr>])"

definition SummaryFileName :: string where
  "SummaryFileName = ''wandb-summary.json''"

definition runtimeJson :: "int32 \<Rightarrow> string" where
  \<open>runtimeJson runtime = ''{"runtime": '' @ fmtInt (sint runtime) @ ''}''\<close>


text \<open>writeAndSendSummaryFile writes the consolidated summary as JSON into the files
  directory and asks the uploader, when there is one, to upload it; nothing when sync is
  enabled. The JSON text is represented by the map it prints.\<close>

definition writeAndSendSummaryFile :: "('f, 'g) Handler \<Rightarrow> error + ('f, 'g) Handler" where
  "writeAndSendSummaryFile h =
     (if XSync (settings h) then Inr h
      else (case summaryHandler h of
              None \<Rightarrow> Inl NilPointer
            | Some sh \<Rightarrow>
                (let h1 = emit (WriteFile (FilesDir (settings h)) SummaryFileName (consolidatedSummary sh)) h
                 in Inr (if runfilesUploaderPresent h1 then emit (UploadNow SummaryFileName) h1 else h1))))"

text \<open>fwdSummary forwards the delta as a summary record and clears it.\<close>

definition fwdSummary :: "('f, 'g) Handler \<Rightarrow> error + ('f, 'g) Handler" where
  "fwdSummary h =
     (case summaryHandler h of
        None \<Rightarrow> Inl NilPointer
      | Some sh \<Rightarrow>
          (let summaryRecord = \<lparr>Update = map (\<lambda>(k, v). \<lparr>Key = k, ValueJson = v\<rparr>) (summaryDelta sh)\<rparr>;
               h1 = fwdRecord h (Some \<lparr>RecordType = Record_Summary summaryRecord, RControl = None, Uuid = ''''\<rparr>)
           in Inr (h1\<lparr>summaryHandler := Some (sh\<lparr>summaryDelta := []\<rparr>)\<rparr>)))"

text \<open>Modelled from the spec: SummaryHandler.Flush is not in handler.go. It runs the flush
  action at once, past the rate limiter of the debouncer.\<close>

definition SummaryHandler_Flush :: "('f, 'g) Handler \<Rightarrow> (('f, 'g) Handler \<Rightarrow> error + ('f, 'g) Handler) \<Rightarrow> error + ('f, 'g) Handler" where
  "SummaryHandler_Flush h f = f h"

definition handleSummary :: "('f, 'g) Handler \<Rightarrow> SummaryRecord \<Rightarrow> error + ('f, 'g) Handler" where
  "handleSummary h summary =
     (if XSync (settings h) then Inr h
      else (let runtime = elapsedSeconds (timer h);
                update = Update summary @ [\<lparr>Key = ''_wandb'', ValueJson = runtimeJson runtime\<rparr>]
            in (case summaryHandler h of
                  None \<Rightarrow> Inl NilPointer
                | Some sh \<Rightarrow>
                    (case ConsolidateSummaryItems (consolidatedSummary sh) update of
                       (cs, summaryRecord) \<Rightarrow>
                         Inr (h\<lparr>summaryHandler := Some
                                \<lparr>consolidatedSummary = cs,
                                 summaryDelta = updateSummaryDelta (summaryDelta sh) summaryRecord\<rparr>\<rparr>)))))"

subsection \<open>Metrics\<close>

definition HasPrefix :: "string \<Rightarrow> string \<Rightarrow> bool" where
  "HasPrefix s p = (take (length p) s = p)"

definition localControl :: Control where
  "localControl = \<lparr>AlwaysSend = False, Local = True, ReqResp = False\<rparr>"

text \<open>handleStepMetric registers a step metric that is not defined yet and forwards its
  definition. addMetric is not in handler.go; modelled from the spec: it inserts or
  updates the entry of the key. Its error is for an argument that is neither a name nor a
  metric, which no call in handler.go passes.\<close>

definition handleStepMetric :: "('f, 'g) Handler \<Rightarrow> string \<Rightarrow> error + ('f, 'g) Handler" where
  "handleStepMetric h k =
     (if k = '''' then Inr h
      else (case metricHandler h of
              None \<Rightarrow> Inl NilPointer
            | Some mh \<Rightarrow>
                (case definedMetrics mh k of
                   Some defined \<Rightarrow> Inr h
                 | None \<Rightarrow>
                     (let metric = \<lparr>Name = k, GlobName = '''', StepMetric = '''', Options = None\<rparr>;
                          h1 = h\<lparr>metricHandler := Some (mh\<lparr>definedMetrics := (definedMetrics mh)(k \<mapsto> metric)\<rparr>)\<rparr>
                      in Inr (fwdRecord h1
                           (Some \<lparr>RecordType = Record_Metric metric, RControl = Some localControl, Uuid = ''''\<rparr>))))))"

definition handleMetric :: "('f, 'g) Handler \<Rightarrow> Record \<Rightarrow> MetricRecord \<Rightarrow> error + ('f, 'g) Handler" where
  "handleMetric h record metric =
     (if GlobName metric \<noteq> '''' then
        (case metricHandler h of
           None \<Rightarrow> Inl NilPointer
         | Some mh \<Rightarrow>
             Inr (fwdRecord
                    (h\<lparr>metricHandler := Some (mh\<lparr>globMetrics := updateGlob (GlobName metric) metric (globMetrics mh)\<rparr>)\<rparr>)
                    (Some record)))
      else if Name metric \<noteq> '''' then
        (case metricHandler h of
           None \<Rightarrow> Inl NilPointer
         | Some mh \<Rightarrow>
             bindE (handleStepMetric
                      (h\<lparr>metricHandler := Some (mh\<lparr>definedMetrics := (definedMetrics mh)(Name metric \<mapsto> metric)\<rparr>)\<rparr>)
                      (StepMetric metric))
                   (\<lambda>h1. Inr (fwdRecord h1 (Some record))))
      else Inr (emit (LogError ''invalid metric'') h))"

text \<open>matchHistoryItemMetric: internal items have no metric; otherwise the metric defined
  under the exact key, otherwise a metric created from the first matching glob, which is
  then handled like any metric record.\<close>

definition matchHistoryItemMetric :: "('f, 'g) Env \<Rightarrow> ('f, 'g) Handler \<Rightarrow> HistoryItem \<Rightarrow> error + (('f, 'g) Handler \<times> MetricRecord option)" where
  "matchHistoryItemMetric env h item =
     (if HasPrefix (Key item) ''_'' then Inr (h, None)
      else (case metricHandler h of
              None \<Rightarrow> Inl NilPointer
            | Some mh \<Rightarrow>
                (case definedMetrics mh (Key item) of
                   Some metric \<Rightarrow> Inr (h, Some metric)
                 | None \<Rightarrow>
                     (case createMatchingGlobMetric env (globMetrics mh) (Key item) of
                        None \<Rightarrow> Inr (h, None)
                      | Some metric \<Rightarrow>
                          bindE (handleMetric h
                                   \<lparr>RecordType = Record_Metric metric, RControl = Some localControl, Uuid = ''''\<rparr>
                                   metric)
                                (\<lambda>h1. Inr (h1, Some metric))))))"

definition GetStepMetric :: "MetricRecord option \<Rightarrow> string" where
  "GetStepMetric metric = (case metric of None \<Rightarrow> '''' | Some m \<Rightarrow> StepMetric m)"

definition GetStepSync :: "MetricRecord option \<Rightarrow> bool" where
  "GetStepSync metric =
     (case metric of
        None \<Rightarrow> False
      | Some m \<Rightarrow> (case Options m of None \<Rightarrow> False | Some opts \<Rightarrow> StepSync opts))"

text \<open>imputeStepMetric returns the step-metric item to add for a history item, if any.\<close>

definition imputeStepMetric :: "('f, 'g) Env \<Rightarrow> ('f, 'g) Handler \<Rightarrow> HistoryItem \<Rightarrow> error + (('f, 'g) Handler \<times> HistoryItem option)" where
  "imputeStepMetric env h item =
     bindE (matchHistoryItemMetric env h item)
       (\<lambda>(h1, metric).
          (let k = GetStepMetric metric
           in if \<not> (GetStepSync metric \<and> k \<noteq> '''') then Inr (h1, None)
              else (case activeHistory h1 of
                      None \<Rightarrow> Inl NilPointer
                    | Some ah \<Rightarrow>
                        (case GetItem ah k of
                           Some present \<Rightarrow> Inr (h1, None)
                         | None \<Rightarrow>
                             (case summaryHandler h1 of
                                None \<Rightarrow> Inl NilPointer
                              | Some sh \<Rightarrow>
                                  (case consolidatedSummary sh k of
                                     Some v \<Rightarrow>
                                       (let hi = \<lparr>Key = k, ValueJson = v\<rparr>
                                        in Inr (h1\<lparr>activeHistory := Some (UpdateValues ah [hi])\<rparr>, Some hi))
                                   | None \<Rightarrow> Inr (h1, None)))))))"

text \<open>The loop of flushHistory over the items of the record: the range is fixed when the
  loop starts, and the items it imputes are appended behind it, in order.\<close>

fun imputeItems :: "('f, 'g) Env \<Rightarrow> ('f, 'g) Handler \<Rightarrow> HistoryItem list \<Rightarrow> error + (('f, 'g) Handler \<times> HistoryItem list)" where
  "imputeItems env h [] = Inr (h, [])"
| "imputeItems env h (item # items) =
     bindE (imputeStepMetric env h item)
       (\<lambda>(h1, s).
          bindE (imputeItems env h1 items)
            (\<lambda>(h2, ss). Inr (h2, (case s of None \<Rightarrow> [] | Some hi \<Rightarrow> [hi]) @ ss)))"

subsection \<open>Sampling and flushing\<close>

text \<open>The loop of sampleHistory: an item that does not parse as a float32 is skipped; a
  sampler is created for a key that has none; the value is added.\<close>

fun sampleItems :: "('f, 'g) Env \<Rightarrow> (string \<rightharpoonup> 'g ReservoirSampler) \<Rightarrow> HistoryItem list \<Rightarrow> (string \<rightharpoonup> 'g ReservoirSampler)" where
  "sampleItems env m [] = m"
| "sampleItems env m (item # items) =
     (case unmarshalFloat32 env (ValueJson item) of
        None \<Rightarrow> sampleItems env m items
      | Some v \<Rightarrow>
          (let s = (case m (Key item) of None \<Rightarrow> NewReservoirSampler 48 0.0005 | Some s0 \<Rightarrow> s0)
           in sampleItems env (m(Key item \<mapsto> Add s v)) items))"

definition sampleHistory :: "('f, 'g) Env \<Rightarrow> ('f, 'g) Handler \<Rightarrow> HistoryRecord \<Rightarrow> ('f, 'g) Handler" where
  "sampleHistory env h history =
     h\<lparr>samplers := Some (sampleItems env (case samplers h of None \<Rightarrow> Map.empty | Some m \<Rightarrow> m) (Item history))\<rparr>"

definition GetNum :: "HistoryStep option \<Rightarrow> int64" where
  "GetNum s = (case s of None \<Rightarrow> 0 | Some x \<Rightarrow> Num x)"

text \<open>flushHistory. A record without items is not flushed (an empty repeated field and an
  accumulator without values are both the nil slice).\<close>

definition flushHistory :: "('f, 'g) Env \<Rightarrow> ('f, 'g) Handler \<Rightarrow> HistoryRecord \<Rightarrow> error + ('f, 'g) Handler" where
  "flushHistory env h history =
     (if Item history = [] then Inr h
      else (case activeHistory h of
              None \<Rightarrow> Inl NilPointer
            | Some ah \<Rightarrow>
                (let (runTime, h1) =
                       (case GetItem ah ''_timestamp'' of
                          None \<Rightarrow> (zeroFloat64 env, h)
                        | Some item \<Rightarrow>
                            (case parseFloat64 env (ValueJson item) of
                               None \<Rightarrow> (zeroFloat64 env, emit (LogError ''error parsing timestamp'') h)
                             | Some val \<Rightarrow> (subFloat64 env val (startTimeMicro (timer h)), h)));
                     items1 = Item history @ [\<lparr>Key = ''_runtime'', ValueJson = fmtFloat64 env runTime\<rparr>];
                     items2 = (if \<not> XShared (settings h1)
                               then items1 @ [\<lparr>Key = ''_step'', ValueJson = fmtInt (sint (GetNum (Step history)))\<rparr>]
                               else items1)
                 in bindE (case metricHandler h1 of
                             None \<Rightarrow> Inr (h1, [])
                           | Some mh \<Rightarrow> imputeItems env h1 items2)
                      (\<lambda>(h2, steps).
                         (let history3 = history\<lparr>Item := items2 @ steps\<rparr>;
                              h3 = sampleHistory env h2 history3;
                              h4 = fwdRecord h3 (Some \<lparr>RecordType = Record_History history3, RControl = None, Uuid = ''''\<rparr>)
                          in (case summaryHandler h4 of
                                None \<Rightarrow> Inr h4
                              | Some sh \<Rightarrow>
                                  (case ConsolidateSummaryItems (consolidatedSummary sh) (Item history3) of
                                     (cs, summary) \<Rightarrow>
                                       Inr (h4\<lparr>summaryHandler := Some
                                              \<lparr>consolidatedSummary = cs,
                                               summaryDelta = updateSummaryDelta (summaryDelta sh) summary\<rparr>\<rparr>))))))))"

text \<open>Modelled from the spec: flushing the active history hands its items (and step) to the
  flush callback and then discards them; without an accumulator there is nothing to do.
  The two callbacks are the closures of handlePartialHistorySync and
  handlePartialHistoryAsync, which wrap the items into a history record, the first with
  the step, and call flushHistory.\<close>

definition ActiveHistory_Flush :: "('f, 'g) Env \<Rightarrow> ('f, 'g) Handler \<Rightarrow> error + ('f, 'g) Handler" where
  "ActiveHistory_Flush env h =
     (case activeHistory h of
        None \<Rightarrow> Inr h
      | Some ah \<Rightarrow>
          bindE (case flush ah of
                   None \<Rightarrow> Inr h
                 | Some FlushWithStep \<Rightarrow> flushHistory env h \<lparr>Step = step ah, Item = values_of ah\<rparr>
                 | Some FlushWithoutStep \<Rightarrow> flushHistory env h \<lparr>Step = None, Item = values_of ah\<rparr>)
            (\<lambda>h1. Inr (h1\<lparr>activeHistory := map_option Clear (activeHistory h1)\<rparr>)))"

definition handleHistory :: "('f, 'g) Env \<Rightarrow> ('f, 'g) Handler \<Rightarrow> HistoryRecord \<Rightarrow> error + ('f, 'g) Handler" where
  "handleHistory env h history =
     (let ah = UpdateValues (NewActiveHistory (Some \<lparr>Num = GetNum (Step history)\<rparr>) None) (Item history)
      in bindE (flushHistory env (h\<lparr>activeHistory := Some ah\<rparr>) history)
           (\<lambda>h1. ActiveHistory_Flush env h1))"

subsection \<open>Partial history\<close>

definition GetFlush :: "HistoryAction option \<Rightarrow> bool" where
  "GetFlush a = (case a of None \<Rightarrow> False | Some x \<Rightarrow> Flush x)"

definition GetStartingStep :: "RunRecord option \<Rightarrow> int64" where
  "GetStartingStep r = (case r of None \<Rightarrow> 0 | Some x \<Rightarrow> StartingStep x)"

definition handlePartialHistoryAsync :: "('f, 'g) Env \<Rightarrow> ('f, 'g) Handler \<Rightarrow> PartialHistoryRequest \<Rightarrow> error + ('f, 'g) Handler" where
  "handlePartialHistoryAsync env h request =
     (let ah = (case activeHistory h of
                  None \<Rightarrow> NewActiveHistory None (Some FlushWithoutStep)
                | Some a \<Rightarrow> a);
          h1 = h\<lparr>activeHistory := Some (UpdateValues ah (ReqItem request))\<rparr>
      in if ReqAction request = None \<or> GetFlush (ReqAction request)
         then ActiveHistory_Flush env h1
         else Inr h1)"

definition stepWarning :: "int64 \<Rightarrow> int64 \<Rightarrow> string" where
  "stepWarning s current =
     ''steps must be monotonically increasing, received history record for a step (''
     @ fmtInt (sint s)
     @ '') that is less than the current step (''
     @ fmtInt (sint current)
     @ '') this data will be ignored. if you need to log data out of order, please see: https://wandb.me/define-metric''"

definition handlePartialHistorySync :: "('f, 'g) Env \<Rightarrow> ('f, 'g) Handler \<Rightarrow> PartialHistoryRequest \<Rightarrow> error + ('f, 'g) Handler" where
  "handlePartialHistorySync env h request =
     (let ah0 = (case activeHistory h of
                   None \<Rightarrow> NewActiveHistory (Some \<lparr>Num = GetStartingStep (runRecord h)\<rparr>) (Some FlushWithStep)
                 | Some a \<Rightarrow> a);
          h0 = h\<lparr>activeHistory := Some ah0\<rparr>;
          rest = (\<lambda>h1.
            (let h2 = h1\<lparr>activeHistory := map_option (\<lambda>a. UpdateValues a (ReqItem request)) (activeHistory h1)\<rparr>
             in if (ReqStep request = None \<and> ReqAction request = None) \<or> GetFlush (ReqAction request)
                then bindE (ActiveHistory_Flush env h2)
                       (\<lambda>h3. (case activeHistory h3 of
                                 None \<Rightarrow> Inl NilPointer
                               | Some a \<Rightarrow>
                                   (case step a of
                                      None \<Rightarrow> Inl NilPointer
                                    | Some st \<Rightarrow> Inr (h3\<lparr>activeHistory := Some (UpdateStep a (Num st + 1))\<rparr>))))
                else Inr h2))
      in (case ReqStep request of
            None \<Rightarrow> rest h0
          | Some rs \<Rightarrow>
              (case step ah0 of
                 None \<Rightarrow> Inl NilPointer
               | Some cur \<Rightarrow>
                   (if Num cur <s Num rs then
                      bindE (ActiveHistory_Flush env h0)
                        (\<lambda>h1. rest (h1\<lparr>activeHistory := map_option (\<lambda>a. UpdateStep a (Num rs)) (activeHistory h1)\<rparr>))
                    else if Num rs <s Num cur then
                      Inr ((emit (LogWarn ''handlePartialHistorySync: ignoring history record'') h0)
                             \<lparr>internalPrinter := internalPrinter h0 @ [stepWarning (Num rs) (Num cur)]\<rparr>)
                    else rest h0))))"

definition handleRequestPartialHistory :: "('f, 'g) Env \<Rightarrow> ('f, 'g) Handler \<Rightarrow> PartialHistoryRequest \<Rightarrow> error + ('f, 'g) Handler" where
  "handleRequestPartialHistory env h request =
     (if XShared (settings h) then handlePartialHistoryAsync env h request
      else handlePartialHistorySync env h request)"

subsection \<open>Defer\<close>

text \<open>handleRequestDefer runs the side effect of the state and then forwards the record
  (a copy of it: values are not shared here) with always_send and local set. The system
  monitor, the TensorBoard handler and the uploader are collaborators whose calls are
  events.\<close>

definition handleRequestDefer :: "('f, 'g) Env \<Rightarrow> ('f, 'g) Handler \<Rightarrow> Record \<Rightarrow> DeferRequest \<Rightarrow> error + ('f, 'g) Handler" where
  "handleRequestDefer env h record request =
     bindE
       (case State request of
          BEGIN \<Rightarrow> Inr h
        | FLUSH_RUN \<Rightarrow> Inr h
        | FLUSH_STATS \<Rightarrow> Inr (emit MonitorStop h)
        | FLUSH_PARTIAL_HISTORY \<Rightarrow> ActiveHistory_Flush env h
        | FLUSH_TB \<Rightarrow> Inr (emit TBClose h)
        | FLUSH_SUM \<Rightarrow>
            bindE (handleSummary h \<lparr>Update = []\<rparr>)
              (\<lambda>h1. bindE (SummaryHandler_Flush h1 fwdSummary) (\<lambda>h2. writeAndSendSummaryFile h2))
        | FLUSH_DEBOUNCER \<Rightarrow> Inr h
        | FLUSH_OUTPUT \<Rightarrow> Inr h
        | FLUSH_JOB \<Rightarrow> Inr h
        | FLUSH_DIR \<Rightarrow> Inr h
        | FLUSH_FP \<Rightarrow> Inr (if runfilesUploaderPresent h then emit UploadRemaining h else h)
        | JOIN_FP \<Rightarrow> Inr h
        | FLUSH_FS \<Rightarrow> Inr h
        | FLUSH_FINAL \<Rightarrow> Inr (handleFooter (handleFinal h))
        | END \<Rightarrow>
            (case fileTransferStats h of
               None \<Rightarrow> Inl NilPointer
             | Some fs \<Rightarrow> Inr (emit SetDoneCalled (h\<lparr>fileTransferStats := Some (SetDone fs)\<rparr>)))
        | UnknownDeferState n \<Rightarrow> Inr (emit (LogError ''unknown defer state'') h))
       (\<lambda>h1. Inr (fwdRecordWithControl h1 (Some record)
                 [\<lambda>control. control\<lparr>AlwaysSend := True\<rparr>, \<lambda>control. control\<lparr>Local := True\<rparr>]))"

section \<open>Notions used in the statements\<close>

text \<open>
  The definitions of this section are not translations of source functions. They name the
  parts of a result that the statements speak about: which events a flush may emit, which
  fields a step leaves alone, the record a flush forwards.
\<close>

text \<open>An event that the resolution of metrics may emit during a flush: a forwarded metric definition or an error log line.\<close>

definition metricEvent :: "Event \<Rightarrow> bool" where
  "metricEvent e = (case e of
      Fwd r \<Rightarrow> (case RecordType r of Record_Metric m \<Rightarrow> True | _ \<Rightarrow> False)
    | LogError s \<Rightarrow> True
    | _ \<Rightarrow> False)"

text \<open>What the loop over the items of a flush leaves alone: everything but the metric registry, the active history and the events, to which it adds metric events only.\<close>

definition frame :: "('f, 'g) Handler \<Rightarrow> ('f, 'g) Handler \<Rightarrow> bool" where
  "frame h h' =
     (settings h' = settings h \<and> timer h' = timer h \<and> runRecord h' = runRecord h
      \<and> summaryHandler h' = summaryHandler h \<and> samplers h' = samplers h
      \<and> runfilesUploaderPresent h' = runfilesUploaderPresent h
      \<and> fileTransferStats h' = fileTransferStats h
      \<and> internalPrinter h' = internalPrinter h
      \<and> (metricHandler h = None \<longleftrightarrow> metricHandler h' = None)
      \<and> (\<exists>evs. events h' = events h @ evs \<and> list_all metricEvent evs))"

text \<open>The value that flushHistory computes for the \<open>_runtime\<close> item.\<close>

definition runTimeOf :: "('f, 'g) Env \<Rightarrow> ('f, 'g) Handler \<Rightarrow> ActiveHistory \<Rightarrow> 'f" where
  "runTimeOf env h ah =
     (case GetItem ah ''_timestamp'' of
        None \<Rightarrow> zeroFloat64 env
      | Some item \<Rightarrow>
          (case parseFloat64 env (ValueJson item) of
             None \<Rightarrow> zeroFloat64 env
           | Some val \<Rightarrow> subFloat64 env val (startTimeMicro (timer h))))"

text \<open>The internal items that flushHistory appends behind the items it is given.\<close>

definition internalItems :: "('f, 'g) Env \<Rightarrow> ('f, 'g) Handler \<Rightarrow> ActiveHistory \<Rightarrow> HistoryRecord \<Rightarrow> HistoryItem list" where
  "internalItems env h ah history =
     \<lparr>Key = ''_runtime'', ValueJson = fmtFloat64 env (runTimeOf env h ah)\<rparr>
     # (if XShared (settings h) then []
        else [\<lparr>Key = ''_step'', ValueJson = fmtInt (sint (GetNum (Step history)))\<rparr>])"

text \<open>The handler after the first part of flushHistory: an error is logged when the timestamp does not parse.\<close>

definition afterTimestamp :: "('f, 'g) Env \<Rightarrow> ('f, 'g) Handler \<Rightarrow> ActiveHistory \<Rightarrow> ('f, 'g) Handler" where
  "afterTimestamp env h ah =
     (case GetItem ah ''_timestamp'' of
        None \<Rightarrow> h
      | Some item \<Rightarrow>
          (case parseFloat64 env (ValueJson item) of
             None \<Rightarrow> emit (LogError ''error parsing timestamp'') h
           | Some val \<Rightarrow> h))"

text \<open>The last part of flushHistory, once the list of items is complete: sample, forward, update the summary.\<close>

definition finishFlush :: "('f, 'g) Env \<Rightarrow> ('f, 'g) Handler \<Rightarrow> HistoryRecord \<Rightarrow> HistoryItem list \<Rightarrow> ('f, 'g) Handler" where
  "finishFlush env h2 history items =
     (let h4 = (sampleHistory env h2 \<lparr>Step = Step history, Item = items\<rparr>)
                 \<lparr>events := events h2 @ [Fwd \<lparr>RecordType = Record_History \<lparr>Step = Step history, Item = items\<rparr>,
                                               RControl = None, Uuid = ''''\<rparr>]\<rparr>
      in (case summaryHandler h2 of
            None \<Rightarrow> h4
          | Some sh \<Rightarrow>
              h4\<lparr>summaryHandler := Some
                   \<lparr>consolidatedSummary = fst (ConsolidateSummaryItems (consolidatedSummary sh) items),
                    summaryDelta = updateSummaryDelta (summaryDelta sh)
                                     (snd (ConsolidateSummaryItems (consolidatedSummary sh) items))\<rparr>\<rparr>))"

text \<open>The history records among the forwarded records of a list of events, in order.\<close>

definition forwardedHistory :: "Event list \<Rightarrow> HistoryRecord list" where
  "forwardedHistory evs =
     List.map_filter
       (\<lambda>e. case e of
               Fwd r \<Rightarrow> (case RecordType r of Record_History hr \<Rightarrow> Some hr | _ \<Rightarrow> None)
             | _ \<Rightarrow> None) evs"

text \<open>What a flush of the active history leaves alone.\<close>

definition keeps :: "('f, 'g) Handler \<Rightarrow> ('f, 'g) Handler \<Rightarrow> bool" where
  "keeps h h' =
     (settings h' = settings h \<and> timer h' = timer h \<and> runRecord h' = runRecord h
      \<and> runfilesUploaderPresent h' = runfilesUploaderPresent h
      \<and> fileTransferStats h' = fileTransferStats h
      \<and> internalPrinter h' = internalPrinter h
      \<and> (metricHandler h = None \<longleftrightarrow> metricHandler h' = None)
      \<and> (summaryHandler h = None \<longleftrightarrow> summaryHandler h' = None))"

text \<open>The record that the flush callback of an accumulator forwards, given the imputed items.\<close>

definition flushedRecord :: "('f, 'g) Env \<Rightarrow> ('f, 'g) Handler \<Rightarrow> ActiveHistory \<Rightarrow> HistoryItem list \<Rightarrow> HistoryRecord" where
  "flushedRecord env h ah steps =
     (let s = (case flush ah of Some FlushWithStep \<Rightarrow> step ah | _ \<Rightarrow> None)
      in \<lparr>Step = s,
          Item = values_of ah @ internalItems env h ah \<lparr>Step = s, Item = values_of ah\<rparr> @ steps\<rparr>)"

text \<open>The part of handlePartialHistorySync behind the handling of the step: append the items, then flush and advance if asked to.\<close>

definition syncRest :: "('f, 'g) Env \<Rightarrow> PartialHistoryRequest \<Rightarrow> ('f, 'g) Handler \<Rightarrow> error + ('f, 'g) Handler" where
  "syncRest env request h1 =
     (let h2 = h1\<lparr>activeHistory := map_option (\<lambda>a. UpdateValues a (ReqItem request)) (activeHistory h1)\<rparr>
      in if (ReqStep request = None \<and> ReqAction request = None) \<or> GetFlush (ReqAction request)
         then bindE (ActiveHistory_Flush env h2)
                (\<lambda>h3. (case activeHistory h3 of
                          None \<Rightarrow> Inl NilPointer
                        | Some a \<Rightarrow>
                            (case step a of
                               None \<Rightarrow> Inl NilPointer
                             | Some st \<Rightarrow> Inr (h3\<lparr>activeHistory := Some (UpdateStep a (Num st + 1))\<rparr>))))
         else Inr h2)"

text \<open>The events of one flush: nothing if there was nothing to flush, else metric events and then the forwarded record, which begins with the accumulated items.\<close>

definition flushEvents :: "Event list \<Rightarrow> bool \<Rightarrow> HistoryStep option \<Rightarrow> HistoryItem list \<Rightarrow> bool" where
  "flushEvents evs c s acc =
     (if c then \<exists>mevs rest. evs = mevs @ [Fwd \<lparr>RecordType = Record_History \<lparr>Step = s, Item = acc @ rest\<rparr>,
                                             RControl = None, Uuid = ''''\<rparr>]
                  \<and> list_all metricEvent mevs
      else evs = [])"

text \<open>The step that the flush callback puts into the record: the one of the accumulator for the callback of the client-stepped mode, none otherwise.\<close>

definition callbackStep :: "ActiveHistory \<Rightarrow> HistoryStep option \<Rightarrow> HistoryStep option" where
  "callbackStep ah s = (case flush ah of Some FlushWithStep \<Rightarrow> s | _ \<Rightarrow> None)"

text \<open>An event that forwards a defer request.\<close>

definition deferFwd :: "Event \<Rightarrow> bool" where
  "deferFwd e =
     (case e of
        Fwd r \<Rightarrow>
          (case RecordType r of
             Record_Request q \<Rightarrow> (case q of Request_Defer d \<Rightarrow> True | _ \<Rightarrow> False)
           | _ \<Rightarrow> False)
      | _ \<Rightarrow> False)"

text \<open>An event that forwards a Final or Footer record, or writes or uploads a file.\<close>

definition shutdownEvent :: "Event \<Rightarrow> bool" where
  "shutdownEvent e =
     (case e of
        Fwd r \<Rightarrow> (case RecordType r of Record_Final \<Rightarrow> True | Record_Footer \<Rightarrow> True | _ \<Rightarrow> False)
      | WriteFile d f c \<Rightarrow> True
      | UploadNow f \<Rightarrow> True
      | _ \<Rightarrow> False)"


text \<open>The metric of a history key: none for an internal key, else the one defined under the exact name, else the one made from the first matching glob.\<close>

definition resolveMetric :: "('f, 'g) Env \<Rightarrow> MetricHandler \<Rightarrow> string \<Rightarrow> MetricRecord option" where
  "resolveMetric env mh k =
     (if HasPrefix k ''_'' then None
      else (case definedMetrics mh k of
              Some m \<Rightarrow> Some m
            | None \<Rightarrow> createMatchingGlobMetric env (globMetrics mh) k))"

text \<open>The step-metric item to impute for a resolved metric, if any.\<close>

definition imputedItem :: "MetricRecord option \<Rightarrow> ActiveHistory \<Rightarrow> SummaryHandler \<Rightarrow> HistoryItem option" where
  "imputedItem resolved ah sh =
     (case resolved of
        None \<Rightarrow> None
      | Some m \<Rightarrow>
          (if (case Options m of None \<Rightarrow> False | Some opts \<Rightarrow> StepSync opts)
              \<and> StepMetric m \<noteq> ''''
              \<and> GetItem ah (StepMetric m) = None
           then (case consolidatedSummary sh (StepMetric m) of
                   None \<Rightarrow> None
                 | Some v \<Rightarrow> Some \<lparr>Key = StepMetric m, ValueJson = v\<rparr>)
           else None))"

text \<open>No metric definition of the registry, exact or glob, has a step metric among the given keys.\<close>

definition stepMetricsAvoid :: "MetricHandler option \<Rightarrow> string set \<Rightarrow> bool" where
  "stepMetricsAvoid mho K =
     (case mho of
        None \<Rightarrow> True
      | Some mh \<Rightarrow>
          (\<forall>k m. definedMetrics mh k = Some m \<longrightarrow> StepMetric m \<notin> K)
          \<and> (\<forall>p \<in> set (globMetrics mh). StepMetric (snd p) \<notin> K))"

text \<open>The registry after handleStepMetric: a step metric that is not defined yet is entered under its own name.\<close>

definition registerStepMetric :: "MetricHandler \<Rightarrow> string \<Rightarrow> MetricHandler" where
  "registerStepMetric mh k =
     (if k = '''' then mh
      else (case definedMetrics mh k of
              Some defined \<Rightarrow> mh
            | None \<Rightarrow>
                mh\<lparr>definedMetrics := (definedMetrics mh)
                      (k \<mapsto> \<lparr>Name = k, GlobName = '''', StepMetric = '''', Options = None\<rparr>)\<rparr>))"

text \<open>The registry after handleMetric: a glob definition is entered among the globs, a named one among the exact names, together with its step metric.\<close>

definition registerMetric :: "MetricHandler \<Rightarrow> MetricRecord \<Rightarrow> MetricHandler" where
  "registerMetric mh metric =
     (if GlobName metric \<noteq> ''''
      then mh\<lparr>globMetrics := updateGlob (GlobName metric) metric (globMetrics mh)\<rparr>
      else if Name metric \<noteq> ''''
      then registerStepMetric (mh\<lparr>definedMetrics := (definedMetrics mh)(Name metric \<mapsto> metric)\<rparr>)
             (StepMetric metric)
      else mh)"

text \<open>The registry after an item has been matched to its metric: a metric made from a glob is registered, anything else leaves the registry as it is.\<close>

definition registryAfter :: "('f, 'g) Env \<Rightarrow> MetricHandler \<Rightarrow> string \<Rightarrow> MetricHandler" where
  "registryAfter env mh k =
     (if HasPrefix k ''_'' then mh
      else (case definedMetrics mh k of
              Some m \<Rightarrow> mh
            | None \<Rightarrow>
                (case createMatchingGlobMetric env (globMetrics mh) k of
                   None \<Rightarrow> mh
                 | Some m \<Rightarrow> registerMetric mh m)))"

text \<open>The items that a flush synthesizes according to the rule of step-metric imputation, item by item over the visited items: an item under the step-metric key, with the value of the summary, when the resolved metric has step_sync set and a step metric that is not yet a key of the record being flushed and the summary has a value for it. The first list is the record being flushed as it stands when the item is visited, the second the items still to visit.\<close>

fun synthesizedItems :: "('f, 'g) Env \<Rightarrow> MetricHandler \<Rightarrow> SummaryHandler \<Rightarrow> HistoryItem list \<Rightarrow> HistoryItem list \<Rightarrow> HistoryItem list" where
  "synthesizedItems env mh sh flushed [] = []"
| "synthesizedItems env mh sh flushed (item # items) =
     (let new = (case resolveMetric env mh (Key item) of
                   None \<Rightarrow> []
                 | Some m \<Rightarrow>
                     (if (case Options m of None \<Rightarrow> False | Some opts \<Rightarrow> StepSync opts)
                         \<and> StepMetric m \<noteq> ''''
                         \<and> StepMetric m \<notin> Key ` set flushed
                      then (case consolidatedSummary sh (StepMetric m) of
                              None \<Rightarrow> []
                            | Some v \<Rightarrow> [\<lparr>Key = StepMetric m, ValueJson = v\<rparr>])
                      else []))
      in new @ synthesizedItems env (registryAfter env mh (Key item)) sh (flushed @ new) items)"

section \<open>Example states\<close>

text \<open>
  A small run, on which the theorems are instantiated: whole numbers stand in for the
  floats, the run starts at time 1000 and at step 5.
\<close>

definition exampleEnv :: "(int, int) Env" where
  "exampleEnv =
     \<lparr>parseFloat64 = (\<lambda>s. if s = ''1700'' then Some 1700 else None),
      subFloat64 = (\<lambda>a b. a - b),
      zeroFloat64 = 0,
      fmtFloat64 = fmtInt,
      unmarshalFloat32 = (\<lambda>s. if s = ''5'' then Some 5 else None),
      globMatch = (\<lambda>g k. g = ''train/*'' \<and> HasPrefix k ''train/'')\<rparr>"

definition exampleHandler :: "(int, int) Handler" where
  "exampleHandler =
     \<lparr>settings = \<lparr>XSync = False, XShared = False, FilesDir = ''files''\<rparr>,
      timer = \<lparr>startTimeMicro = 1000, isPaused = False, elapsedSeconds = 42\<rparr>,
      runRecord = Some \<lparr>StartingStep = 5\<rparr>,
      summaryHandler = Some \<lparr>consolidatedSummary = Map.empty, summaryDelta = []\<rparr>,
      activeHistory = None,
      samplers = None,
      metricHandler = None,
      runfilesUploaderPresent = True,
      fileTransferStats = Some
        \<lparr>filesStats = \<lparr>UploadedBytes = 0, TotalBytes = 0, DedupedBytes = 0\<rparr>,
         fileCounts = \<lparr>WandbCount = 0, MediaCount = 0, ArtifactCount = 0, OtherCount = 0\<rparr>,
         isDone = False\<rparr>,
      internalPrinter = [],
      events = []\<rparr>"

definition exampleRequest :: PartialHistoryRequest where
  "exampleRequest =
     \<lparr>ReqItem = [\<lparr>Key = ''loss'', ValueJson = ''5''\<rparr>], ReqStep = None,
      ReqAction = Some \<lparr>Flush = True\<rparr>\<rparr>"

definition exampleRegression :: PartialHistoryRequest where
  "exampleRegression =
     \<lparr>ReqItem = [\<lparr>Key = ''loss'', ValueJson = ''9''\<rparr>], ReqStep = Some \<lparr>Num = 3\<rparr>,
      ReqAction = Some \<lparr>Flush = True\<rparr>\<rparr>"

definition exampleSameStep :: PartialHistoryRequest where
  "exampleSameStep =
     \<lparr>ReqItem = [\<lparr>Key = ''loss'', ValueJson = ''5''\<rparr>], ReqStep = Some \<lparr>Num = 5\<rparr>,
      ReqAction = Some \<lparr>Flush = True\<rparr>\<rparr>"

definition exampleAccumulator :: ActiveHistory where
  "exampleAccumulator =
     \<lparr>values_of = [\<lparr>Key = ''loss'', ValueJson = ''5''\<rparr>, \<lparr>Key = ''_timestamp'', ValueJson = ''1700''\<rparr>],
      step = Some \<lparr>Num = 5\<rparr>,
      flush = Some FlushWithStep\<rparr>"

definition examplePending :: "(int, int) Handler" where
  "examplePending = exampleHandler\<lparr>activeHistory := Some exampleAccumulator\<rparr>"

definition exampleHistory :: HistoryRecord where
  "exampleHistory =
     \<lparr>Step = Some \<lparr>Num = 5\<rparr>,
      Item = [\<lparr>Key = ''loss'', ValueJson = ''5''\<rparr>, \<lparr>Key = ''_timestamp'', ValueJson = ''1700''\<rparr>]\<rparr>"

definition exampleLossMetric :: MetricRecord where
  "exampleLossMetric =
     \<lparr>Name = ''loss'', GlobName = '''', StepMetric = ''epoch'',
      Options = Some \<lparr>StepSync = True, Hidden = False, Defined = True\<rparr>\<rparr>"

definition exampleMetricHandler :: MetricHandler where
  "exampleMetricHandler =
     \<lparr>definedMetrics = [''loss'' \<mapsto> exampleLossMetric], globMetrics = []\<rparr>"

definition exampleSummary :: SummaryHandler where
  "exampleSummary = \<lparr>consolidatedSummary = [''epoch'' \<mapsto> ''7''], summaryDelta = []\<rparr>"

definition exampleWithMetrics :: "(int, int) Handler" where
  "exampleWithMetrics =
     examplePending\<lparr>metricHandler := Some exampleMetricHandler, summaryHandler := Some exampleSummary\<rparr>"

definition exampleSync :: "(int, int) Handler" where
  "exampleSync = exampleHandler\<lparr>settings := \<lparr>XSync = True, XShared = False, FilesDir = ''files''\<rparr>\<rparr>"

definition exampleDefer :: Record where
  "exampleDefer =
     \<lparr>RecordType = Record_Request (Request_Defer \<lparr>State = END\<rparr>), RControl = None, Uuid = ''d1''\<rparr>"

definition exampleExit :: Record where
  "exampleExit =
     \<lparr>RecordType = Record_Exit \<lparr>ExitCode = 0, Runtime = 0\<rparr>, RControl = None, Uuid = ''e1''\<rparr>"

definition exampleRuntimeHistory :: HistoryRecord where
  "exampleRuntimeHistory =
     \<lparr>Step = Some \<lparr>Num = 0\<rparr>, Item = [\<lparr>Key = ''_runtime'', ValueJson = ''7''\<rparr>]\<rparr>"

definition exampleEmptyRequest :: PartialHistoryRequest where
  "exampleEmptyRequest = \<lparr>ReqItem = [], ReqStep = None, ReqAction = Some \<lparr>Flush = True\<rparr>\<rparr>"

definition exampleWithoutStats :: "(int, int) Handler" where
  "exampleWithoutStats = exampleHandler\<lparr>fileTransferStats := None\<rparr>"

definition examplePollExit :: Record where
  "examplePollExit = \<lparr>RecordType = Record_Request Request_PollExit, RControl = None, Uuid = ''p1''\<rparr>"

definition exampleStepMetric :: MetricRecord where
  "exampleStepMetric =
     \<lparr>Name = ''loss'', GlobName = '''', StepMetric = ''_step'',
      Options = Some \<lparr>StepSync = True, Hidden = False, Defined = True\<rparr>\<rparr>"

definition exampleStepMetricRecord :: Record where
  "exampleStepMetricRecord = \<lparr>RecordType = Record_Metric exampleStepMetric, RControl = None, Uuid = ''m1''\<rparr>"

definition exampleRegistry :: "(int, int) Handler" where
  "exampleRegistry = exampleHandler\<lparr>metricHandler := Some \<lparr>definedMetrics = Map.empty, globMetrics = []\<rparr>\<rparr>"

definition exampleAccMetric :: MetricRecord where
  "exampleAccMetric =
     \<lparr>Name = ''acc'', GlobName = '''', StepMetric = ''iter'',
      Options = Some \<lparr>StepSync = True, Hidden = False, Defined = True\<rparr>\<rparr>"

definition exampleTwoItems :: "HistoryItem list" where
  "exampleTwoItems = [\<lparr>Key = ''loss'', ValueJson = ''5''\<rparr>, \<lparr>Key = ''acc'', ValueJson = ''5''\<rparr>]"

definition exampleTwoMetrics :: "(int, int) Handler" where
  "exampleTwoMetrics =
     exampleHandler
       \<lparr>metricHandler := Some \<lparr>definedMetrics = [''loss'' \<mapsto> exampleLossMetric, ''acc'' \<mapsto> exampleAccMetric],
                                 globMetrics = []\<rparr>,
        summaryHandler := Some \<lparr>consolidatedSummary = [''epoch'' \<mapsto> ''7'', ''iter'' \<mapsto> ''3''],
                                 summaryDelta = []\<rparr>,
        activeHistory := Some \<lparr>values_of = exampleTwoItems, step = Some \<lparr>Num = 5\<rparr>,
                                flush = Some FlushWithStep\<rparr>\<rparr>"

definition exampleOtherKey :: PartialHistoryRequest where
  "exampleOtherKey =
     \<lparr>ReqItem = [\<lparr>Key = ''val_loss'', ValueJson = ''5''\<rparr>], ReqStep = Some \<lparr>Num = 5\<rparr>,
      ReqAction = Some \<lparr>Flush = True\<rparr>\<rparr>"

section \<open>Auxiliary lemmas\<close>

lemma frame_refl: "frame h h" by (simp add: frame_def)

lemma frame_trans: "frame h h1 \<Longrightarrow> frame h1 h2 \<Longrightarrow> frame h h2"
  by (auto simp add: frame_def)

lemma handleStepMetric_ok:
  assumes "metricHandler h \<noteq> None"
  shows "\<exists>h'. handleStepMetric h k = Inr h' \<and> frame h h' \<and> activeHistory h' = activeHistory h"
  using assms
  by (auto simp add: handleStepMetric_def fwdRecord_def emit_def Let_def frame_def metricEvent_def split: option.split)

lemma handleMetric_ok:
  assumes "metricHandler h \<noteq> None"
  shows "\<exists>h'. handleMetric h \<lparr>RecordType = Record_Metric m0, RControl = c0, Uuid = u0\<rparr> metric = Inr h'
     \<and> frame h h' \<and> activeHistory h' = activeHistory h"
proof -
  consider (g) "GlobName metric \<noteq> ''''" | (n) "GlobName metric = ''''" "Name metric \<noteq> ''''"
    | (d) "GlobName metric = ''''" "Name metric = ''''" by blast
  then show ?thesis
  proof cases
    case g
    then show ?thesis using assms
      by (auto simp add: handleMetric_def fwdRecord_def emit_def frame_def metricEvent_def)
  next
    case n
    obtain mh where mh: "metricHandler h = Some mh" using assms by auto
    let ?h1 = "h\<lparr>metricHandler := Some (mh\<lparr>definedMetrics := (definedMetrics mh)(Name metric \<mapsto> metric)\<rparr>)\<rparr>"
    obtain h2 where s: "handleStepMetric ?h1 (StepMetric metric) = Inr h2" and f: "frame ?h1 h2"
      and a: "activeHistory h2 = activeHistory ?h1"
      using handleStepMetric_ok[of ?h1 "StepMetric metric"] by auto
    show ?thesis using n mh s f a
      by (auto simp add: handleMetric_def fwdRecord_def emit_def bindE_def frame_def metricEvent_def)
  next
    case d
    then show ?thesis using assms
      by (auto simp add: handleMetric_def emit_def frame_def metricEvent_def)
  qed
qed

lemma matchHistoryItemMetric_ok:
  assumes "metricHandler h \<noteq> None"
  shows "\<exists>h' m. matchHistoryItemMetric env h item = Inr (h', m) \<and> frame h h'
           \<and> activeHistory h' = activeHistory h"
proof -
  obtain mh where mh: "metricHandler h = Some mh" using assms by auto
  show ?thesis
  proof (cases "\<not> HasPrefix (Key item) ''_'' \<and> definedMetrics mh (Key item) = None
                 \<and> createMatchingGlobMetric env (globMetrics mh) (Key item) \<noteq> None")
    case True
    then obtain metric where c: "createMatchingGlobMetric env (globMetrics mh) (Key item) = Some metric"
      by auto
    obtain h1 where "handleMetric h \<lparr>RecordType = Record_Metric metric, RControl = Some localControl, Uuid = ''''\<rparr> metric = Inr h1"
      "frame h h1" "activeHistory h1 = activeHistory h"
      using handleMetric_ok[OF assms] by blast
    then show ?thesis using True mh c
      by (simp add: matchHistoryItemMetric_def bindE_def)
  next
    case False
    then show ?thesis using mh
      by (auto simp add: matchHistoryItemMetric_def frame_refl split: option.split)
  qed
qed

lemma UpdateValues_Nil [simp]: "UpdateValues ah [] = ah"
  by (simp add: UpdateValues_def)

lemma UpdateValues_append [simp]: "UpdateValues (UpdateValues ah xs) ys = UpdateValues ah (xs @ ys)"
  by (simp add: UpdateValues_def)

lemma imputeStepMetric_ok:
  assumes "metricHandler h \<noteq> None" "activeHistory h = Some ah" "summaryHandler h \<noteq> None"
  shows "\<exists>h' r. imputeStepMetric env h item = Inr (h', r) \<and> frame h h'
           \<and> activeHistory h' = Some (UpdateValues ah (case r of None \<Rightarrow> [] | Some hi \<Rightarrow> [hi]))"
proof -
  obtain h1 m where m: "matchHistoryItemMetric env h item = Inr (h1, m)" and f: "frame h h1"
     and a: "activeHistory h1 = activeHistory h"
    using matchHistoryItemMetric_ok[OF assms(1)] by blast
  have s: "summaryHandler h1 = summaryHandler h" using f by (simp add: frame_def)
  have f2: "\<And>x. frame h (h1\<lparr>activeHistory := x\<rparr>)" using f by (simp add: frame_def)
  show ?thesis using m a s assms f f2
    by (auto simp add: imputeStepMetric_def bindE_def Let_def split: option.split)
qed

lemma imputeItems_ok:
  assumes "metricHandler h \<noteq> None" "activeHistory h = Some ah" "summaryHandler h \<noteq> None"
  shows "\<exists>h' rs. imputeItems env h items = Inr (h', rs) \<and> frame h h'
           \<and> activeHistory h' = Some (UpdateValues ah rs)"
  using assms
proof (induction items arbitrary: h ah)
  case Nil
  then show ?case by (simp add: frame_refl)
next
  case (Cons item items)
  obtain h1 r where 1: "imputeStepMetric env h item = Inr (h1, r)" "frame h h1"
     "activeHistory h1 = Some (UpdateValues ah (case r of None \<Rightarrow> [] | Some hi \<Rightarrow> [hi]))"
    using imputeStepMetric_ok[OF Cons.prems] by blast
  have "metricHandler h1 \<noteq> None" "summaryHandler h1 \<noteq> None"
    using 1(2) Cons.prems by (auto simp add: frame_def)
  from Cons.IH[OF this(1) 1(3) this(2)]
  obtain h2 rs where 2: "imputeItems env h1 items = Inr (h2, rs)" "frame h1 h2"
     "activeHistory h2 = Some (UpdateValues (UpdateValues ah (case r of None \<Rightarrow> [] | Some hi \<Rightarrow> [hi])) rs)"
    by blast
  show ?case using 1 2 frame_trans[OF 1(2) 2(2)]
    by (simp add: bindE_def)
qed

lemma flushHistory_unfold:
  assumes "Item history \<noteq> []" "activeHistory h = Some ah"
  shows "flushHistory env h history =
     (case metricHandler h of
        None \<Rightarrow> Inr (finishFlush env (afterTimestamp env h ah) history
                      (Item history @ internalItems env h ah history))
      | Some mh \<Rightarrow>
          bindE (imputeItems env (afterTimestamp env h ah) (Item history @ internalItems env h ah history))
            (\<lambda>(h2, steps). Inr (finishFlush env h2 history
                      (Item history @ internalItems env h ah history @ steps))))"
proof -
  have r: "history\<lparr>Item := xs\<rparr> = \<lparr>Step = Step history, Item = xs\<rparr>" for xs by simp
  have fin: "(let history3 = history\<lparr>Item := xs\<rparr>;
                  h3 = sampleHistory env h2 history3;
                  h4 = fwdRecord h3 (Some \<lparr>RecordType = Record_History history3, RControl = None, Uuid = ''''\<rparr>)
              in (case summaryHandler h4 of
                    None \<Rightarrow> Inr h4
                  | Some sh \<Rightarrow>
                      (case ConsolidateSummaryItems (consolidatedSummary sh) (Item history3) of
                         (cs, summary) \<Rightarrow>
                           Inr (h4\<lparr>summaryHandler := Some
                                  \<lparr>consolidatedSummary = cs,
                                   summaryDelta = updateSummaryDelta (summaryDelta sh) summary\<rparr>\<rparr>))))
             = Inr (finishFlush env h2 history xs)" for xs h2
    by (simp add: finishFlush_def r Let_def sampleHistory_def fwdRecord_def emit_def
            split: option.split prod.split)
  show ?thesis
    using assms
    unfolding flushHistory_def fin
    by (auto simp add: bindE_def Let_def internalItems_def afterTimestamp_def runTimeOf_def emit_def
          simp del: imputeItems.simps split: option.split sum.split)
qed

lemma afterTimestamp_frame:
  "frame h (afterTimestamp env h ah) \<and> activeHistory (afterTimestamp env h ah) = activeHistory h
   \<and> metricHandler (afterTimestamp env h ah) = metricHandler h
   \<and> (events (afterTimestamp env h ah) = events h
        \<or> events (afterTimestamp env h ah) = events h @ [LogError ''error parsing timestamp''])"
  by (auto simp add: afterTimestamp_def frame_def emit_def metricEvent_def split: option.split)

lemma flushHistory_ok:
  assumes "activeHistory h = Some ah" "metricHandler h = None \<or> summaryHandler h \<noteq> None"
    "Item history \<noteq> []"
  shows "\<exists>h2 steps evs. flushHistory env h history
              = Inr (finishFlush env h2 history (Item history @ internalItems env h ah history @ steps))
     \<and> frame h h2 \<and> events h2 = events h @ evs \<and> list_all metricEvent evs
     \<and> activeHistory h2 = Some (UpdateValues ah steps)
     \<and> (metricHandler h = None \<longrightarrow> steps = [] \<and> h2 = afterTimestamp env h ah)"
proof (cases "metricHandler h")
  case None
  obtain evs where "events (afterTimestamp env h ah) = events h @ evs" "list_all metricEvent evs"
    using afterTimestamp_frame[of h env ah] by (auto simp add: frame_def)
  then show ?thesis
    using None assms afterTimestamp_frame[of h env ah] flushHistory_unfold[OF assms(3,1), of env]
    by (intro exI[of _ "afterTimestamp env h ah"] exI[of _ "[]"] exI[of _ evs]) simp
next
  case (Some mh)
  let ?h1 = "afterTimestamp env h ah"
  have "metricHandler ?h1 \<noteq> None" "summaryHandler ?h1 \<noteq> None" "activeHistory ?h1 = Some ah"
    using Some assms afterTimestamp_frame[of h env ah] by (auto simp add: frame_def)
  from imputeItems_ok[OF this(1) this(3) this(2)]
  obtain h2 steps where i: "imputeItems env ?h1 (Item history @ internalItems env h ah history) = Inr (h2, steps)"
     "frame ?h1 h2" "activeHistory h2 = Some (UpdateValues ah steps)"
    by blast
  have f: "frame h h2" using frame_trans[OF _ i(2)] afterTimestamp_frame[of h env ah] by blast
  then obtain evs where "events h2 = events h @ evs" "list_all metricEvent evs"
    by (auto simp add: frame_def)
  then show ?thesis
    using Some i f flushHistory_unfold[OF assms(3,1), of env]
    by (intro exI[of _ h2] exI[of _ steps] exI[of _ evs]) (simp add: bindE_def)
qed

lemma finishFlush_fields:
  "events (finishFlush env h2 history items)
      = events h2 @ [Fwd \<lparr>RecordType = Record_History \<lparr>Step = Step history, Item = items\<rparr>,
                           RControl = None, Uuid = ''''\<rparr>]"
  "activeHistory (finishFlush env h2 history items) = activeHistory h2"
  "metricHandler (finishFlush env h2 history items) = metricHandler h2"
  "settings (finishFlush env h2 history items) = settings h2"
  "timer (finishFlush env h2 history items) = timer h2"
  "runRecord (finishFlush env h2 history items) = runRecord h2"
  "runfilesUploaderPresent (finishFlush env h2 history items) = runfilesUploaderPresent h2"
  "fileTransferStats (finishFlush env h2 history items) = fileTransferStats h2"
  "internalPrinter (finishFlush env h2 history items) = internalPrinter h2"
  "samplers (finishFlush env h2 history items)
      = Some (sampleItems env (case samplers h2 of None \<Rightarrow> Map.empty | Some m \<Rightarrow> m) items)"
  "(summaryHandler (finishFlush env h2 history items) = None) = (summaryHandler h2 = None)"
  by (simp_all add: finishFlush_def Let_def sampleHistory_def split: option.split)

lemma keeps_refl: "keeps h h" by (simp add: keeps_def)

lemma keeps_trans: "keeps h h1 \<Longrightarrow> keeps h1 h2 \<Longrightarrow> keeps h h2"
  by (auto simp add: keeps_def)

lemma frame_keeps: "frame h h' \<Longrightarrow> keeps h h'"
  by (auto simp add: frame_def keeps_def)

lemma forwardedHistory_append [simp]:
  "forwardedHistory (xs @ ys) = forwardedHistory xs @ forwardedHistory ys"
  by (induction xs) (auto simp add: forwardedHistory_def split: option.split)

lemma forwardedHistory_metric: "list_all metricEvent evs \<Longrightarrow> forwardedHistory evs = []"
  by (induction evs)
     (auto simp add: forwardedHistory_def metricEvent_def
           split: Event.splits RecordType.splits)

lemma forwardedHistory_single [simp]:
  "forwardedHistory [Fwd \<lparr>RecordType = Record_History hr, RControl = c, Uuid = u\<rparr>] = [hr]"
  by (simp add: forwardedHistory_def)

lemma ActiveHistory_Flush_ok:
  assumes "activeHistory h = Some ah" "metricHandler h = None \<or> summaryHandler h \<noteq> None"
  shows "\<exists>h' evs. ActiveHistory_Flush env h = Inr h' \<and> keeps h h'
     \<and> activeHistory h' = Some (ah\<lparr>values_of := []\<rparr>)
     \<and> events h' = events h @ evs
     \<and> (if values_of ah = [] \<or> flush ah = None then evs = []
         else \<exists>mevs steps. evs = mevs @ [Fwd \<lparr>RecordType = Record_History (flushedRecord env h ah steps),
                                                RControl = None, Uuid = ''''\<rparr>]
                \<and> list_all metricEvent mevs)"
proof (cases "values_of ah = [] \<or> flush ah = None")
  case True
  then show ?thesis using assms
    by (auto simp add: ActiveHistory_Flush_def flushHistory_def bindE_def Clear_def keeps_def
          split: option.split FlushCallback.split)
next
  case False
  define s where "s = (case flush ah of Some FlushWithStep \<Rightarrow> step ah | _ \<Rightarrow> None)"
  let ?hist = "\<lparr>Step = s, Item = values_of ah\<rparr>"
  have ne: "Item ?hist \<noteq> []" using False by simp
  from flushHistory_ok[OF assms(1) assms(2) ne, of env]
  obtain h2 steps evs where fl: "flushHistory env h ?hist
              = Inr (finishFlush env h2 ?hist (Item ?hist @ internalItems env h ah ?hist @ steps))"
     and f: "frame h h2" and e: "events h2 = events h @ evs" "list_all metricEvent evs"
     and a: "activeHistory h2 = Some (UpdateValues ah steps)"
    by blast
  have c: "(case flush ah of
                   None \<Rightarrow> Inr h
                 | Some FlushWithStep \<Rightarrow> flushHistory env h \<lparr>Step = step ah, Item = values_of ah\<rparr>
                 | Some FlushWithoutStep \<Rightarrow> flushHistory env h \<lparr>Step = None, Item = values_of ah\<rparr>)
           = flushHistory env h ?hist"
    using False by (auto simp add: s_def split: option.split FlushCallback.split)
  show ?thesis
    using False assms(1) f e a
    unfolding ActiveHistory_Flush_def
    apply (simp only: c fl option.case)
    apply (intro exI[of _ "(finishFlush env h2 ?hist (Item ?hist @ internalItems env h ah ?hist @ steps))
             \<lparr>activeHistory := map_option Clear (activeHistory (finishFlush env h2 ?hist (Item ?hist @ internalItems env h ah ?hist @ steps)))\<rparr>"]
                 exI[of _ "evs @ [Fwd \<lparr>RecordType = Record_History (flushedRecord env h ah steps),
                                                RControl = None, Uuid = ''''\<rparr>]"])
    apply (simp add: bindE_def finishFlush_fields keeps_def frame_def Clear_def UpdateValues_def
                     flushedRecord_def s_def Let_def)
    done
qed

lemma handlePartialHistorySync_unfold:
  "handlePartialHistorySync env h request =
     (let ah0 = (case activeHistory h of
                   None \<Rightarrow> NewActiveHistory (Some \<lparr>Num = GetStartingStep (runRecord h)\<rparr>) (Some FlushWithStep)
                 | Some a \<Rightarrow> a);
          h0 = h\<lparr>activeHistory := Some ah0\<rparr>
      in (case ReqStep request of
            None \<Rightarrow> syncRest env request h0
          | Some rs \<Rightarrow>
              (case step ah0 of
                 None \<Rightarrow> Inl NilPointer
               | Some cur \<Rightarrow>
                   (if Num cur <s Num rs then
                      bindE (ActiveHistory_Flush env h0)
                        (\<lambda>h1. syncRest env request
                                 (h1\<lparr>activeHistory := map_option (\<lambda>a. UpdateStep a (Num rs)) (activeHistory h1)\<rparr>))
                    else if Num rs <s Num cur then
                      Inr ((emit (LogWarn ''handlePartialHistorySync: ignoring history record'') h0)
                             \<lparr>internalPrinter := internalPrinter h0 @ [stepWarning (Num rs) (Num cur)]\<rparr>)
                    else syncRest env request h0))))"
  unfolding handlePartialHistorySync_def syncRest_def Let_def by (rule refl)

lemma syncRest_ok:
  assumes "activeHistory h1 = Some a1" "step a1 = Some \<lparr>Num = b\<rparr>"
    "metricHandler h1 = None \<or> summaryHandler h1 \<noteq> None"
    "cond = ((ReqStep request = None \<and> ReqAction request = None) \<or> GetFlush (ReqAction request))"
    "acc = values_of a1 @ ReqItem request"
  shows "\<exists>h' evs. syncRest env request h1 = Inr h' \<and> keeps h1 h'
     \<and> activeHistory h' = Some (a1\<lparr>values_of := (if cond then [] else acc),
                                     step := Some \<lparr>Num = (if cond then b + 1 else b)\<rparr>\<rparr>)
     \<and> events h' = events h1 @ evs
     \<and> (if cond \<and> acc \<noteq> [] \<and> flush a1 \<noteq> None
         then \<exists>mevs steps. evs = mevs @ [Fwd \<lparr>RecordType = Record_History
                     (flushedRecord env h1 (a1\<lparr>values_of := acc\<rparr>) steps), RControl = None, Uuid = ''''\<rparr>]
                \<and> list_all metricEvent mevs
         else evs = [])"
proof (cases cond)
  case False
  then show ?thesis using assms
    by (auto simp add: syncRest_def Let_def keeps_def UpdateValues_def)
next
  case True
  let ?a2 = "UpdateValues a1 (ReqItem request)"
  let ?h2 = "h1\<lparr>activeHistory := Some ?a2\<rparr>"
  have k: "keeps h1 ?h2" by (simp add: keeps_def)
  have "activeHistory ?h2 = Some ?a2" "metricHandler ?h2 = None \<or> summaryHandler ?h2 \<noteq> None"
    using assms(3) by auto
  from ActiveHistory_Flush_ok[OF this, of env]
  obtain h3 evs where fl: "ActiveHistory_Flush env ?h2 = Inr h3" "keeps ?h2 h3"
     "activeHistory h3 = Some (?a2\<lparr>values_of := []\<rparr>)"
     "events h3 = events ?h2 @ evs"
     "(if values_of ?a2 = [] \<or> flush ?a2 = None then evs = []
         else \<exists>mevs steps. evs = mevs @ [Fwd \<lparr>RecordType = Record_History (flushedRecord env ?h2 ?a2 steps),
                                                RControl = None, Uuid = ''''\<rparr>]
                \<and> list_all metricEvent mevs)"
    by blast
  have fr: "flushedRecord env (h1\<lparr>activeHistory := x\<rparr>) y steps = flushedRecord env h1 y steps" for x y steps
    by (simp add: flushedRecord_def internalItems_def runTimeOf_def Let_def split: option.split)
  have a2: "?a2 = a1\<lparr>values_of := acc\<rparr>" using assms(5) by (simp add: UpdateValues_def)
  have fl5: "(if acc = [] \<or> flush a1 = None then evs = []
         else \<exists>mevs steps. evs = mevs @ [Fwd \<lparr>RecordType = Record_History
                     (flushedRecord env h1 (a1\<lparr>values_of := acc\<rparr>) steps), RControl = None, Uuid = []\<rparr>]
                \<and> list_all metricEvent mevs)"
    using fl(5)[unfolded a2 fr] by simp
  have st: "ActiveHistory_Flush env (h1\<lparr>activeHistory := Some (a1\<lparr>values_of := acc\<rparr>)\<rparr>) = Inr h3"
    "activeHistory h3 = Some (a1\<lparr>values_of := []\<rparr>)" "events h3 = events h1 @ evs" "keeps h1 h3"
    using fl(1,3,4) keeps_trans[OF k fl(2)] by (simp_all add: a2)
  show ?thesis
    using True assms(1,2,4) st fl5
    apply (intro exI[of _ "h3\<lparr>activeHistory := Some (UpdateStep (a1\<lparr>values_of := []\<rparr>) (b + 1))\<rparr>"] exI[of _ evs])
    apply (simp add: syncRest_def Let_def bindE_def a2)
    apply (auto simp add: keeps_def UpdateStep_def split: if_splits)
    done
qed

lemma sless_trichotomy: "\<not> (a::int64) <s b \<Longrightarrow> \<not> b <s a \<Longrightarrow> a = b"
  using signed.less_linear by blast


lemma flushEvents_forwarded:
  "flushEvents evs c s acc \<Longrightarrow>
     (if c then \<exists>rest. forwardedHistory evs = [\<lparr>Step = s, Item = acc @ rest\<rparr>] else forwardedHistory evs = [])"
  by (auto simp add: flushEvents_def forwardedHistory_metric split: if_splits)

lemma flushedRecord_eq:
  "flushedRecord env h a steps =
     \<lparr>Step = callbackStep a (step a),
      Item = values_of a @ (internalItems env h a \<lparr>Step = callbackStep a (step a), Item = values_of a\<rparr> @ steps)\<rparr>"
  by (simp add: flushedRecord_def callbackStep_def Let_def)

lemma handlePartialHistorySync_ok:
  assumes "ah0 = (case activeHistory h of
                    None \<Rightarrow> NewActiveHistory (Some \<lparr>Num = GetStartingStep (runRecord h)\<rparr>) (Some FlushWithStep)
                  | Some a \<Rightarrow> a)"
    and "step ah0 = Some \<lparr>Num = cur\<rparr>"
    and "ReqStep request = None \<or> (\<exists>rs. ReqStep request = Some \<lparr>Num = rs\<rparr> \<and> \<not> rs <s cur)"
    and "metricHandler h = None \<or> summaryHandler h \<noteq> None"
    and "base = (case ReqStep request of None \<Rightarrow> cur | Some rs \<Rightarrow> Num rs)"
    and "acc = (if cur <s base then [] else values_of ah0) @ ReqItem request"
    and "cond = ((ReqStep request = None \<and> ReqAction request = None) \<or> GetFlush (ReqAction request))"
  shows "\<exists>h' evs1 evs2. handlePartialHistorySync env h request = Inr h' \<and> keeps h h'
      \<and> activeHistory h' = Some (ah0\<lparr>values_of := (if cond then [] else acc),
                                      step := Some \<lparr>Num = (if cond then base + 1 else base)\<rparr>\<rparr>)
      \<and> events h' = events h @ evs1 @ evs2
      \<and> flushEvents evs1 (cur <s base \<and> values_of ah0 \<noteq> [] \<and> flush ah0 \<noteq> None)
           (callbackStep ah0 (Some \<lparr>Num = cur\<rparr>)) (values_of ah0)
      \<and> flushEvents evs2 (cond \<and> acc \<noteq> [] \<and> flush ah0 \<noteq> None)
           (callbackStep ah0 (Some \<lparr>Num = base\<rparr>)) acc"
proof -
  let ?h0 = "h\<lparr>activeHistory := Some ah0\<rparr>"
  have h0: "activeHistory ?h0 = Some ah0" "metricHandler ?h0 = None \<or> summaryHandler ?h0 \<noteq> None"
    "events ?h0 = events h" "keeps h ?h0"
    using assms(4) by (auto simp add: keeps_def)
  show ?thesis
  proof (cases "cur <s base")
    case False
    have eq: "handlePartialHistorySync env h request = syncRest env request ?h0"
    proof (cases "ReqStep request")
      case None
      then show ?thesis using assms(1) by (simp add: handlePartialHistorySync_unfold Let_def)
    next
      case (Some rs)
      then have "\<not> Num rs <s cur" "\<not> cur <s Num rs" using assms(3,5) False by auto
      then show ?thesis using Some assms(1,2) by (simp add: handlePartialHistorySync_unfold Let_def)
    qed
    have b: "base = cur"
      using assms(3,5) False by (auto intro: sless_trichotomy)
    have acc: "acc = values_of ah0 @ ReqItem request" using False assms(6) by simp
    from syncRest_ok[OF h0(1) assms(2) h0(2) assms(7) acc, of env]
    obtain h' evs where r: "syncRest env request ?h0 = Inr h'" "keeps ?h0 h'"
      "activeHistory h' = Some (ah0\<lparr>values_of := (if cond then [] else acc),
                                     step := Some \<lparr>Num = (if cond then cur + 1 else cur)\<rparr>\<rparr>)"
      "events h' = events ?h0 @ evs"
      "(if cond \<and> acc \<noteq> [] \<and> flush ah0 \<noteq> None
         then \<exists>mevs steps. evs = mevs @ [Fwd \<lparr>RecordType = Record_History
                     (flushedRecord env ?h0 (ah0\<lparr>values_of := acc\<rparr>) steps), RControl = None, Uuid = ''''\<rparr>]
                \<and> list_all metricEvent mevs
         else evs = [])"
      by blast
    have fe: "flushEvents evs (cond \<and> acc \<noteq> [] \<and> flush ah0 \<noteq> None) (callbackStep ah0 (Some \<lparr>Num = base\<rparr>)) acc"
      using r(5) assms(2) b
      by (auto simp add: flushEvents_def flushedRecord_eq callbackStep_def split: if_splits)
    show ?thesis
      using eq r(1,3,4) b False fe keeps_trans[OF h0(4) r(2)]
      by (intro exI[of _ h'] exI[of _ "[]"] exI[of _ evs]) (simp add: flushEvents_def)
  next
    case True
    then obtain rs where rs: "ReqStep request = Some rs" "base = Num rs"
      using assms(5) by (cases "ReqStep request") auto
    from ActiveHistory_Flush_ok[OF h0(1,2), of env]
    obtain h1 evs1 where f: "ActiveHistory_Flush env ?h0 = Inr h1" "keeps ?h0 h1"
      "activeHistory h1 = Some (ah0\<lparr>values_of := []\<rparr>)"
      "events h1 = events ?h0 @ evs1"
      "(if values_of ah0 = [] \<or> flush ah0 = None then evs1 = []
         else \<exists>mevs steps. evs1 = mevs @ [Fwd \<lparr>RecordType = Record_History (flushedRecord env ?h0 ah0 steps),
                                                RControl = None, Uuid = ''''\<rparr>]
                \<and> list_all metricEvent mevs)"
      by blast
    let ?a1 = "UpdateStep (ah0\<lparr>values_of := []\<rparr>) (Num rs)"
    let ?h1 = "h1\<lparr>activeHistory := Some ?a1\<rparr>"
    have eq: "handlePartialHistorySync env h request = syncRest env request ?h1"
      using rs True assms(1,2) f(1,3) by (simp add: handlePartialHistorySync_unfold Let_def bindE_def)
    have h1: "activeHistory ?h1 = Some ?a1" "step ?a1 = Some \<lparr>Num = base\<rparr>"
      "metricHandler ?h1 = None \<or> summaryHandler ?h1 \<noteq> None"
      "acc = values_of ?a1 @ ReqItem request" "keeps h ?h1"
      using rs f(2) h0(2) assms(6) True by (auto simp add: UpdateStep_def keeps_def)
    from syncRest_ok[OF h1(1,2,3) assms(7) h1(4), of env]
    obtain h' evs where r: "syncRest env request ?h1 = Inr h'" "keeps ?h1 h'"
      "activeHistory h' = Some (?a1\<lparr>values_of := (if cond then [] else acc),
                                     step := Some \<lparr>Num = (if cond then base + 1 else base)\<rparr>\<rparr>)"
      "events h' = events ?h1 @ evs"
      "(if cond \<and> acc \<noteq> [] \<and> flush ?a1 \<noteq> None
         then \<exists>mevs steps. evs = mevs @ [Fwd \<lparr>RecordType = Record_History
                     (flushedRecord env ?h1 (?a1\<lparr>values_of := acc\<rparr>) steps), RControl = None, Uuid = ''''\<rparr>]
                \<and> list_all metricEvent mevs
         else evs = [])"
      by blast
    have fe2: "flushEvents evs (cond \<and> acc \<noteq> [] \<and> flush ah0 \<noteq> None) (callbackStep ah0 (Some \<lparr>Num = base\<rparr>)) acc"
      using r(5) rs
      by (auto simp add: flushEvents_def flushedRecord_eq callbackStep_def UpdateStep_def split: if_splits)
    have fe1: "flushEvents evs1 (cur <s base \<and> values_of ah0 \<noteq> [] \<and> flush ah0 \<noteq> None)
           (callbackStep ah0 (Some \<lparr>Num = cur\<rparr>)) (values_of ah0)"
      using f(5) True assms(2)
      by (auto simp add: flushEvents_def flushedRecord_eq callbackStep_def split: if_splits)
    have a: "?a1\<lparr>values_of := (if cond then [] else acc),
                                     step := Some \<lparr>Num = (if cond then base + 1 else base)\<rparr>\<rparr>
             = ah0\<lparr>values_of := (if cond then [] else acc),
                                      step := Some \<lparr>Num = (if cond then base + 1 else base)\<rparr>\<rparr>"
      by (simp add: UpdateStep_def)
    show ?thesis
      using eq r(1,3,4) f(4) fe1 fe2 keeps_trans[OF h1(5) r(2)]
      by (intro exI[of _ h'] exI[of _ evs1] exI[of _ evs]) (simp add: a)
  qed
qed

lemma metricEvent_not_defer: "list_all metricEvent evs \<Longrightarrow> list_all (\<lambda>e. \<not> deferFwd e) evs"
  by (induction evs)
     (auto simp add: metricEvent_def deferFwd_def split: Event.splits RecordType.splits)

lemma metricEvent_not_shutdown: "list_all metricEvent evs \<Longrightarrow> list_all (\<lambda>e. \<not> shutdownEvent e) evs"
  by (induction evs)
     (auto simp add: metricEvent_def shutdownEvent_def split: Event.splits RecordType.splits)

lemma flush_no_defer:
  assumes "metricHandler h = None \<or> summaryHandler h \<noteq> None"
  shows "\<exists>h1 evs. ActiveHistory_Flush env h = Inr h1 \<and> events h1 = events h @ evs
           \<and> list_all (\<lambda>e. \<not> deferFwd e) evs \<and> list_all (\<lambda>e. \<not> shutdownEvent e) evs
           \<and> fileTransferStats h1 = fileTransferStats h"
proof (cases "activeHistory h")
  case None
  then show ?thesis by (simp add: ActiveHistory_Flush_def)
next
  case (Some ah)
  from ActiveHistory_Flush_ok[OF Some assms, of env]
  obtain h' evs where f: "ActiveHistory_Flush env h = Inr h'" "keeps h h'"
     "events h' = events h @ evs"
     "(if values_of ah = [] \<or> flush ah = None then evs = []
         else \<exists>mevs steps. evs = mevs @ [Fwd \<lparr>RecordType = Record_History (flushedRecord env h ah steps),
                                                RControl = None, Uuid = ''''\<rparr>]
                \<and> list_all metricEvent mevs)"
    by blast
  have "list_all (\<lambda>e. \<not> deferFwd e) evs"
    using f(4) metricEvent_not_defer by (auto simp add: deferFwd_def split: if_splits)
  moreover have "list_all (\<lambda>e. \<not> shutdownEvent e) evs"
    using f(4) metricEvent_not_shutdown by (auto simp add: shutdownEvent_def split: if_splits)
  ultimately show ?thesis using f by (auto simp add: keeps_def)
qed

text \<open>
  What a defer request does when the collaborators of its state are present: the side
  effect of the state, and then one forward of the record, as the last event, with
  always_send and local set. No event of the side effect forwards a defer record.
\<close>

lemma handleRequestDefer_effects:
  assumes "State request = FLUSH_PARTIAL_HISTORY \<longrightarrow> metricHandler h = None \<or> summaryHandler h \<noteq> None"
    and "State request = FLUSH_SUM \<longrightarrow> summaryHandler h \<noteq> None"
    and "State request = END \<longrightarrow> fileTransferStats h \<noteq> None"
  shows "\<exists>h1 evs.
           handleRequestDefer env h record request =
             Inr (h1\<lparr>events := events h1 @
                    [Fwd (record\<lparr>RControl := Some
                           ((case RControl record of None \<Rightarrow> emptyControl | Some c \<Rightarrow> c)
                              \<lparr>AlwaysSend := True, Local := True\<rparr>)\<rparr>)]\<rparr>)
         \<and> events h1 = events h @ evs
         \<and> list_all (\<lambda>e. \<not> deferFwd e) evs
         \<and> (case State request of
               FLUSH_STATS \<Rightarrow> h1 = h\<lparr>events := events h @ [MonitorStop]\<rparr>
             | FLUSH_PARTIAL_HISTORY \<Rightarrow> ActiveHistory_Flush env h = Inr h1
             | FLUSH_TB \<Rightarrow> h1 = h\<lparr>events := events h @ [TBClose]\<rparr>
             | FLUSH_SUM \<Rightarrow>
                 (\<exists>h2 h3. handleSummary h \<lparr>Update = []\<rparr> = Inr h2 \<and> fwdSummary h2 = Inr h3
                    \<and> writeAndSendSummaryFile h3 = Inr h1)
             | FLUSH_FP \<Rightarrow>
                 h1 = h\<lparr>events := events h @ (if runfilesUploaderPresent h then [UploadRemaining] else [])\<rparr>
             | FLUSH_FINAL \<Rightarrow>
                 h1 = h\<lparr>events := events h @
                   (if XSync (settings h) then []
                    else [Fwd \<lparr>RecordType = Record_Final,
                               RControl = Some (emptyControl\<lparr>AlwaysSend := False\<rparr>), Uuid = ''''\<rparr>,
                          Fwd \<lparr>RecordType = Record_Footer,
                               RControl = Some (emptyControl\<lparr>AlwaysSend := False\<rparr>), Uuid = ''''\<rparr>])\<rparr>
             | END \<Rightarrow>
                 (\<exists>fs. fileTransferStats h = Some fs
                    \<and> h1 = h\<lparr>fileTransferStats := Some (fs\<lparr>isDone := True\<rparr>),
                             events := events h @ [SetDoneCalled]\<rparr>)
             | UnknownDeferState n \<Rightarrow> h1 = h\<lparr>events := events h @ [LogError ''unknown defer state'']\<rparr>
             | _ \<Rightarrow> h1 = h)"
proof -
  have fwd: "fwdRecordWithControl h1 (Some record)
                 [\<lambda>control. control\<lparr>AlwaysSend := True\<rparr>, \<lambda>control. control\<lparr>Local := True\<rparr>]
        = h1\<lparr>events := events h1 @
                    [Fwd (record\<lparr>RControl := Some
                           ((case RControl record of None \<Rightarrow> emptyControl | Some c \<Rightarrow> c)
                              \<lparr>AlwaysSend := True, Local := True\<rparr>)\<rparr>)]\<rparr>" for h1 :: "('a, 'b) Handler"
    by (simp add: fwdRecordWithControl_def fwdRecord_def emit_def Let_def)
  show ?thesis
  proof (cases "State request")
    case FLUSH_PARTIAL_HISTORY
    obtain h1 evs where "ActiveHistory_Flush env h = Inr h1" "events h1 = events h @ evs"
      "list_all (\<lambda>e. \<not> deferFwd e) evs"
      using flush_no_defer[of h env] assms(1) FLUSH_PARTIAL_HISTORY by blast
    then show ?thesis using FLUSH_PARTIAL_HISTORY
      by (intro exI[of _ h1] exI[of _ evs]) (simp add: handleRequestDefer_def bindE_def fwd)
  next
    case FLUSH_SUM
    obtain sh where sh: "summaryHandler h = Some sh" using assms(2) FLUSH_SUM by auto
    obtain h2 where h2: "handleSummary h \<lparr>Update = []\<rparr> = Inr h2" "summaryHandler h2 \<noteq> None"
      "\<exists>evs. events h2 = events h @ evs \<and> list_all (\<lambda>e. \<not> deferFwd e) evs"
      using sh
      by (cases "XSync (settings h)")
         (auto simp add: handleSummary_def Let_def ConsolidateSummaryItems_def)
    obtain h3 where h3: "fwdSummary h2 = Inr h3" "summaryHandler h3 \<noteq> None"
      "\<exists>evs. events h3 = events h2 @ evs \<and> list_all (\<lambda>e. \<not> deferFwd e) evs"
      using h2(2)
      by (auto simp add: fwdSummary_def fwdRecord_def emit_def deferFwd_def)
    obtain h1 where h1: "writeAndSendSummaryFile h3 = Inr h1"
      "\<exists>evs. events h1 = events h3 @ evs \<and> list_all (\<lambda>e. \<not> deferFwd e) evs"
      using h3(2)
      by (cases "XSync (settings h3)")
         (auto simp add: writeAndSendSummaryFile_def Let_def emit_def deferFwd_def)
    obtain evs where evs: "events h1 = events h @ evs" "list_all (\<lambda>e. \<not> deferFwd e) evs"
      using h2(3) h3(3) h1(2) by auto
    show ?thesis using FLUSH_SUM h2(1) h3(1) h1(1) evs
      by (intro exI[of _ h1] exI[of _ evs])
         (simp add: handleRequestDefer_def bindE_def fwd SummaryHandler_Flush_def)
  next
    case FLUSH_FINAL
    then show ?thesis
      by (intro exI[of _ "handleFooter (handleFinal h)"]
                exI[of _ "if XSync (settings h) then [] else
                   [Fwd \<lparr>RecordType = Record_Final, RControl = Some (emptyControl\<lparr>AlwaysSend := False\<rparr>), Uuid = ''''\<rparr>,
                    Fwd \<lparr>RecordType = Record_Footer, RControl = Some (emptyControl\<lparr>AlwaysSend := False\<rparr>), Uuid = ''''\<rparr>]"])
         (simp add: handleRequestDefer_def bindE_def fwd handleFinal_def handleFooter_def
                fwdRecordWithControl_def fwdRecord_def emit_def deferFwd_def)
  next
    case END
    then obtain fs where fs: "fileTransferStats h = Some fs" using assms(3) by auto
    show ?thesis using END fs
      by (intro exI[of _ "emit SetDoneCalled (h\<lparr>fileTransferStats := Some (SetDone fs)\<rparr>)"] exI[of _ "[SetDoneCalled]"])
         (simp add: handleRequestDefer_def bindE_def fwd emit_def deferFwd_def SetDone_def)
  next
    case (UnknownDeferState n)
    then show ?thesis
      by (intro exI[of _ "emit (LogError ''unknown defer state'') h"] exI[of _ "[LogError ''unknown defer state'']"])
         (simp add: handleRequestDefer_def bindE_def fwd emit_def deferFwd_def)
  next
    case FLUSH_STATS
    then show ?thesis
      by (intro exI[of _ "emit MonitorStop h"] exI[of _ "[MonitorStop]"])
         (simp add: handleRequestDefer_def bindE_def fwd emit_def deferFwd_def)
  next
    case FLUSH_TB
    then show ?thesis
      by (intro exI[of _ "emit TBClose h"] exI[of _ "[TBClose]"])
         (simp add: handleRequestDefer_def bindE_def fwd emit_def deferFwd_def)
  next
    case FLUSH_FP
    then show ?thesis
      by (intro exI[of _ "if runfilesUploaderPresent h then emit UploadRemaining h else h"]
                exI[of _ "if runfilesUploaderPresent h then [UploadRemaining] else []"])
         (simp add: handleRequestDefer_def bindE_def fwd emit_def deferFwd_def)
  qed (intro exI[of _ h] exI[of _ "[]"], simp add: handleRequestDefer_def bindE_def fwd)+
qed


lemma matchHistoryItemMetric_result:
  assumes "metricHandler h = Some mh"
  shows "\<exists>h'. matchHistoryItemMetric env h item = Inr (h', resolveMetric env mh (Key item))
           \<and> frame h h' \<and> activeHistory h' = activeHistory h"
proof -
  have ne: "metricHandler h \<noteq> None" using assms by simp
  show ?thesis
  proof (cases "\<not> HasPrefix (Key item) ''_'' \<and> definedMetrics mh (Key item) = None
                 \<and> createMatchingGlobMetric env (globMetrics mh) (Key item) \<noteq> None")
    case True
    then obtain metric where c: "createMatchingGlobMetric env (globMetrics mh) (Key item) = Some metric"
      by auto
    obtain h1 where "handleMetric h \<lparr>RecordType = Record_Metric metric, RControl = Some localControl, Uuid = ''''\<rparr> metric = Inr h1"
      "frame h h1" "activeHistory h1 = activeHistory h"
      using handleMetric_ok[OF ne] by blast
    then show ?thesis using True assms c
      by (simp add: matchHistoryItemMetric_def bindE_def resolveMetric_def)
  next
    case False
    then show ?thesis using assms
      by (auto simp add: matchHistoryItemMetric_def resolveMetric_def frame_refl split: option.split)
  qed
qed

lemma imputeStepMetric_result:
  assumes "metricHandler h = Some mh" "activeHistory h = Some ah" "summaryHandler h = Some sh"
  shows "\<exists>h'. imputeStepMetric env h item
              = Inr (h', imputedItem (resolveMetric env mh (Key item)) ah sh)
           \<and> frame h h'
           \<and> activeHistory h' = Some (UpdateValues ah
                (case imputedItem (resolveMetric env mh (Key item)) ah sh of None \<Rightarrow> [] | Some hi \<Rightarrow> [hi]))"
proof -
  obtain h1 where m: "matchHistoryItemMetric env h item = Inr (h1, resolveMetric env mh (Key item))"
     and f: "frame h h1" and a: "activeHistory h1 = activeHistory h"
    using matchHistoryItemMetric_result[OF assms(1)] by blast
  have s: "summaryHandler h1 = summaryHandler h" using f by (simp add: frame_def)
  have f2: "\<And>x. frame h (h1\<lparr>activeHistory := x\<rparr>)" using f by (simp add: frame_def)
  show ?thesis
  proof (cases "resolveMetric env mh (Key item)")
    case None
    then show ?thesis using m a s assms f
      by (simp add: imputeStepMetric_def bindE_def Let_def imputedItem_def GetStepMetric_def GetStepSync_def)
  next
    case (Some metric)
    then show ?thesis using m a s assms f f2
      by (auto simp add: imputeStepMetric_def bindE_def Let_def imputedItem_def GetStepMetric_def
            GetStepSync_def split: option.split)
  qed
qed

lemma imputeStepMetric_internal:
  assumes "HasPrefix (Key item) ''_''"
  shows "imputeStepMetric env h item = Inr (h, None)"
  using assms
  by (simp add: imputeStepMetric_def matchHistoryItemMetric_def bindE_def Let_def GetStepMetric_def GetStepSync_def)

lemma imputeItems_internal:
  assumes "list_all (\<lambda>i. HasPrefix (Key i) ''_'') items"
  shows "imputeItems env h items = Inr (h, [])"
  using assms by (induction items) (simp_all add: imputeStepMetric_internal bindE_def)

lemma internalItems_internal: "list_all (\<lambda>i. HasPrefix (Key i) ''_'') (internalItems env h ah history)"
  by (simp add: internalItems_def HasPrefix_def)

lemma imputeStepMetric_characterisation:
  assumes "metricHandler h = Some mh" and "activeHistory h = Some ah" and "summaryHandler h = Some sh"
    and "resolved = (if HasPrefix (Key item) ''_'' then None
                     else (case definedMetrics mh (Key item) of
                             Some m \<Rightarrow> Some m
                           | None \<Rightarrow> createMatchingGlobMetric env (globMetrics mh) (Key item)))"
    and "expected = (case resolved of
                       None \<Rightarrow> None
                     | Some m \<Rightarrow>
                         (if (case Options m of None \<Rightarrow> False | Some opts \<Rightarrow> StepSync opts)
                             \<and> StepMetric m \<noteq> ''''
                             \<and> GetItem ah (StepMetric m) = None
                          then (case consolidatedSummary sh (StepMetric m) of
                                  None \<Rightarrow> None
                                | Some v \<Rightarrow> Some \<lparr>Key = StepMetric m, ValueJson = v\<rparr>)
                          else None))"
  shows "(\<exists>h'. imputeStepMetric env h item = Inr (h', expected))
       \<and> (\<exists>h' evs. flushHistory env h \<lparr>Step = s, Item = [item]\<rparr> = Inr h'
             \<and> events h' = events h @ evs @
                  [Fwd \<lparr>RecordType = Record_History
                          \<lparr>Step = s,
                           Item = [item] @ internalItems env h ah \<lparr>Step = s, Item = [item]\<rparr>
                                  @ (case expected of None \<Rightarrow> [] | Some hi \<Rightarrow> [hi])\<rparr>,
                        RControl = None, Uuid = ''''\<rparr>]
             \<and> forwardedHistory evs = [])"
proof -
  have e: "expected = imputedItem (resolveMetric env mh (Key item)) ah sh"
    using assms(4,5) by (simp add: imputedItem_def resolveMetric_def)
  have 1: "\<exists>h'. imputeStepMetric env h item = Inr (h', expected)"
    using imputeStepMetric_result[OF assms(1,2,3), of env item] e by auto
  let ?hist = "\<lparr>Step = s, Item = [item]\<rparr>"
  let ?h1 = "afterTimestamp env h ah"
  have h1: "metricHandler ?h1 = Some mh" "activeHistory ?h1 = Some ah" "summaryHandler ?h1 = Some sh"
    "frame h ?h1"
    using afterTimestamp_frame[of h env ah] assms(1,2,3) by (auto simp add: frame_def)
  obtain h2 where i: "imputeStepMetric env ?h1 item = Inr (h2, expected)" "frame ?h1 h2"
    using imputeStepMetric_result[OF h1(1,2,3), of env item] e by auto
  have il: "imputeItems env ?h1 (Item ?hist @ internalItems env h ah ?hist)
              = Inr (h2, (case expected of None \<Rightarrow> [] | Some hi \<Rightarrow> [hi]))"
    using i(1) imputeItems_internal[OF internalItems_internal, of env h2 env h ah ?hist]
    by (simp add: bindE_def)
  have f: "frame h h2" using frame_trans[OF h1(4) i(2)] .
  then obtain evs where evs: "events h2 = events h @ evs" "list_all metricEvent evs"
    by (auto simp add: frame_def)
  have fl: "flushHistory env h ?hist = Inr (finishFlush env h2 ?hist
               (Item ?hist @ internalItems env h ah ?hist @ (case expected of None \<Rightarrow> [] | Some hi \<Rightarrow> [hi])))"
    using flushHistory_unfold[of ?hist h ah env] assms(1,2) il
    by (simp add: bindE_def)
  have 2: "\<exists>h' evs. flushHistory env h ?hist = Inr h'
             \<and> events h' = events h @ evs @
                  [Fwd \<lparr>RecordType = Record_History
                          \<lparr>Step = s,
                           Item = [item] @ internalItems env h ah ?hist
                                  @ (case expected of None \<Rightarrow> [] | Some hi \<Rightarrow> [hi])\<rparr>,
                        RControl = None, Uuid = ''''\<rparr>]
             \<and> forwardedHistory evs = []"
    using fl evs forwardedHistory_metric[OF evs(2)]
    by (intro exI[of _ "finishFlush env h2 ?hist
               (Item ?hist @ internalItems env h ah ?hist @ (case expected of None \<Rightarrow> [] | Some hi \<Rightarrow> [hi]))"]
              exI[of _ evs])
       (simp add: finishFlush_fields)
  show ?thesis using 1 2 by blast
qed

lemma createMatchingGlobMetric_step:
  "createMatchingGlobMetric env gs k = Some m \<Longrightarrow> \<exists>p \<in> set gs. StepMetric m = StepMetric (snd p)"
  by (induction gs) (auto split: if_splits)

lemma set_updateGlob: "set (updateGlob k m gs) \<subseteq> insert (k, m) (set gs)"
  by (induction gs) auto

lemma handleStepMetric_avoid:
  assumes "stepMetricsAvoid (metricHandler h) K" "'''' \<notin> K" "handleStepMetric h k = Inr h'"
  shows "stepMetricsAvoid (metricHandler h') K"
  using assms
  by (fastforce simp add: handleStepMetric_def stepMetricsAvoid_def fwdRecord_def emit_def Let_def
        split: option.splits if_splits)

lemma handleMetric_avoid:
  assumes "stepMetricsAvoid (metricHandler h) K" "'''' \<notin> K" "StepMetric metric \<notin> K"
    "handleMetric h record metric = Inr h'"
  shows "stepMetricsAvoid (metricHandler h') K"
proof -
  consider (g) "GlobName metric \<noteq> ''''" | (n) "GlobName metric = ''''" "Name metric \<noteq> ''''"
    | (d) "GlobName metric = ''''" "Name metric = ''''" by blast
  then show ?thesis
  proof cases
    case g
    then show ?thesis using assms set_updateGlob[of "GlobName metric" metric]
      by (fastforce simp add: handleMetric_def stepMetricsAvoid_def fwdRecord_def emit_def
            split: option.splits)
  next
    case n
    obtain mh where mh: "metricHandler h = Some mh"
      using assms(4) n by (auto simp add: handleMetric_def split: option.splits)
    let ?h1 = "h\<lparr>metricHandler := Some (mh\<lparr>definedMetrics := (definedMetrics mh)(Name metric \<mapsto> metric)\<rparr>)\<rparr>"
    have a1: "stepMetricsAvoid (metricHandler ?h1) K"
      using assms(1,3) mh by (auto simp add: stepMetricsAvoid_def)
    obtain h2 where s: "handleStepMetric ?h1 (StepMetric metric) = Inr h2" "metricHandler h' = metricHandler h2"
      using assms(4) n mh
      by (auto simp add: handleMetric_def bindE_def fwdRecord_def emit_def split: sum.splits)
    show ?thesis using handleStepMetric_avoid[OF a1 assms(2) s(1)] s(2) by simp
  next
    case d
    then show ?thesis using assms by (auto simp add: handleMetric_def emit_def)
  qed
qed

lemma matchHistoryItemMetric_avoid:
  assumes "stepMetricsAvoid (metricHandler h) K" "'''' \<notin> K"
    "matchHistoryItemMetric env h item = Inr (h', m)"
  shows "stepMetricsAvoid (metricHandler h') K \<and> GetStepMetric m \<notin> K"
proof (cases "HasPrefix (Key item) ''_''")
  case True
  then show ?thesis using assms by (simp add: matchHistoryItemMetric_def GetStepMetric_def)
next
  case False
  obtain mh where mh: "metricHandler h = Some mh"
    using assms(3) False by (auto simp add: matchHistoryItemMetric_def split: option.splits)
  show ?thesis
  proof (cases "definedMetrics mh (Key item)")
    case (Some metric)
    have r: "h' = h" "m = Some metric"
      using assms(3) False mh Some by (simp_all add: matchHistoryItemMetric_def)
    have "StepMetric metric \<notin> K"
      using assms(1) mh Some by (simp add: stepMetricsAvoid_def)
    then show ?thesis using r assms(1) by (simp add: GetStepMetric_def)
  next
    case None
    show ?thesis
    proof (cases "createMatchingGlobMetric env (globMetrics mh) (Key item)")
      case N: None
      then show ?thesis using assms False mh None
        by (auto simp add: matchHistoryItemMetric_def GetStepMetric_def)
    next
      case (Some metric)
      have sm: "StepMetric metric \<notin> K"
        using createMatchingGlobMetric_step[OF Some] assms(1) mh by (auto simp add: stepMetricsAvoid_def)
      obtain h1 where hm: "handleMetric h \<lparr>RecordType = Record_Metric metric, RControl = Some localControl, Uuid = ''''\<rparr> metric = Inr h1"
         "h' = h1" "m = Some metric"
        using assms(3) False mh None Some
        by (auto simp add: matchHistoryItemMetric_def bindE_def split: sum.splits)
      show ?thesis using handleMetric_avoid[OF assms(1,2) sm hm(1)] hm(2,3) sm
        by (simp add: GetStepMetric_def)
    qed
  qed
qed

lemma imputeStepMetric_avoid:
  assumes "stepMetricsAvoid (metricHandler h) K" "'''' \<notin> K"
    "imputeStepMetric env h item = Inr (h', r)"
  shows "stepMetricsAvoid (metricHandler h') K \<and> (\<forall>hi. r = Some hi \<longrightarrow> Key hi \<notin> K)"
proof -
  obtain h1 m where m: "matchHistoryItemMetric env h item = Inr (h1, m)"
    using assms(3) by (auto simp add: imputeStepMetric_def bindE_def split: sum.splits)
  have a: "stepMetricsAvoid (metricHandler h1) K" "GetStepMetric m \<notin> K"
    using matchHistoryItemMetric_avoid[OF assms(1,2) m] by auto
  show ?thesis using assms(3) m a
    by (auto simp add: imputeStepMetric_def bindE_def Let_def split: option.splits if_splits)
qed

lemma imputeItems_avoid:
  assumes "stepMetricsAvoid (metricHandler h) K" "'''' \<notin> K"
    "imputeItems env h items = Inr (h', rs)"
  shows "\<forall>hi \<in> set rs. Key hi \<notin> K"
  using assms
proof (induction items arbitrary: h h' rs)
  case Nil
  then show ?case by simp
next
  case (Cons item items)
  obtain h1 r where 1: "imputeStepMetric env h item = Inr (h1, r)"
    using Cons.prems(3) by (auto simp add: bindE_def split: sum.splits)
  obtain h2 ss where 2: "imputeItems env h1 items = Inr (h2, ss)"
     and rs: "rs = (case r of None \<Rightarrow> [] | Some hi \<Rightarrow> [hi]) @ ss"
    using Cons.prems(3) 1 by (auto simp add: bindE_def split: sum.splits)
  have a: "stepMetricsAvoid (metricHandler h1) K" "\<forall>hi. r = Some hi \<longrightarrow> Key hi \<notin> K"
    using imputeStepMetric_avoid[OF Cons.prems(1,2) 1] by auto
  have "\<forall>hi \<in> set ss. Key hi \<notin> K" using Cons.IH[OF a(1) Cons.prems(2) 2] .
  then show ?case using rs a(2) by (auto split: option.splits)
qed

lemma handleStepMetric_registry:
  assumes "metricHandler h = Some mh" "handleStepMetric h k = Inr h'"
  shows "metricHandler h' = Some (registerStepMetric mh k)"
  using assms
  by (auto simp add: handleStepMetric_def registerStepMetric_def fwdRecord_def emit_def Let_def
        split: option.splits if_splits)

lemma handleMetric_registry:
  assumes "metricHandler h = Some mh" "handleMetric h r0 metric = Inr h'"
  shows "metricHandler h' = Some (registerMetric mh metric)"
proof -
  consider (g) "GlobName metric \<noteq> ''''" | (n) "GlobName metric = ''''" "Name metric \<noteq> ''''"
    | (d) "GlobName metric = ''''" "Name metric = ''''" by blast
  then show ?thesis
  proof cases
    case g
    then show ?thesis using assms
      by (auto simp add: handleMetric_def registerMetric_def fwdRecord_def emit_def)
  next
    case n
    let ?mh1 = "mh\<lparr>definedMetrics := (definedMetrics mh)(Name metric \<mapsto> metric)\<rparr>"
    let ?h1 = "h\<lparr>metricHandler := Some ?mh1\<rparr>"
    obtain h2 where s: "handleStepMetric ?h1 (StepMetric metric) = Inr h2" "metricHandler h' = metricHandler h2"
      using assms n
      by (auto simp add: handleMetric_def bindE_def fwdRecord_def emit_def split: sum.splits)
    have "metricHandler ?h1 = Some ?mh1" by simp
    from handleStepMetric_registry[OF this s(1)] show ?thesis
      using s(2) n by (simp add: registerMetric_def)
  next
    case d
    then show ?thesis using assms
      by (auto simp add: handleMetric_def registerMetric_def emit_def)
  qed
qed

lemma matchHistoryItemMetric_registry:
  assumes "metricHandler h = Some mh" "matchHistoryItemMetric env h item = Inr (h', m)"
  shows "metricHandler h' = Some (registryAfter env mh (Key item))"
proof (cases "\<not> HasPrefix (Key item) ''_'' \<and> definedMetrics mh (Key item) = None
                 \<and> createMatchingGlobMetric env (globMetrics mh) (Key item) \<noteq> None")
  case True
  then obtain metric where c: "createMatchingGlobMetric env (globMetrics mh) (Key item) = Some metric"
    by auto
  obtain h1 where hm: "handleMetric h \<lparr>RecordType = Record_Metric metric, RControl = Some localControl, Uuid = ''''\<rparr> metric = Inr h1"
     "h' = h1"
    using assms True c
    by (auto simp add: matchHistoryItemMetric_def bindE_def split: sum.splits)
  show ?thesis using handleMetric_registry[OF assms(1) hm(1)] hm(2) True c
    by (simp add: registryAfter_def)
next
  case False
  then show ?thesis using assms
    by (auto simp add: matchHistoryItemMetric_def registryAfter_def split: option.splits if_splits)
qed

lemma imputeStepMetric_registry:
  assumes "metricHandler h = Some mh" "imputeStepMetric env h item = Inr (h', r)"
  shows "metricHandler h' = Some (registryAfter env mh (Key item))"
proof -
  obtain h1 m where m: "matchHistoryItemMetric env h item = Inr (h1, m)"
    using assms(2) by (auto simp add: imputeStepMetric_def bindE_def split: sum.splits)
  have "metricHandler h1 = Some (registryAfter env mh (Key item))"
    using matchHistoryItemMetric_registry[OF assms(1) m] .
  then show ?thesis using assms(2) m
    by (auto simp add: imputeStepMetric_def bindE_def Let_def split: option.splits if_splits)
qed

lemma GetItem_None: "GetItem a k = None \<longleftrightarrow> k \<notin> Key ` set (values_of a)"
  by (auto simp add: GetItem_def find_None_iff)

lemma imputedItem_record:
  assumes "GetStepMetric resolved \<notin> K"
    and "\<forall>k. k \<notin> K \<longrightarrow> (k \<in> Key ` set flushed \<longleftrightarrow> k \<in> Key ` set (values_of a))"
  shows "(case imputedItem resolved a sh of None \<Rightarrow> [] | Some hi \<Rightarrow> [hi]) =
         (case resolved of
            None \<Rightarrow> []
          | Some m \<Rightarrow>
              (if (case Options m of None \<Rightarrow> False | Some opts \<Rightarrow> StepSync opts)
                  \<and> StepMetric m \<noteq> ''''
                  \<and> StepMetric m \<notin> Key ` set flushed
               then (case consolidatedSummary sh (StepMetric m) of
                       None \<Rightarrow> []
                     | Some v \<Rightarrow> [\<lparr>Key = StepMetric m, ValueJson = v\<rparr>])
               else []))"
proof (cases resolved)
  case None
  then show ?thesis by (simp add: imputedItem_def)
next
  case (Some m)
  have "StepMetric m \<notin> K" using assms(1) Some by (simp add: GetStepMetric_def)
  then have "GetItem a (StepMetric m) = None \<longleftrightarrow> StepMetric m \<notin> Key ` set flushed"
    using assms(2) by (simp add: GetItem_None)
  then show ?thesis using Some
    by (simp add: imputedItem_def split: option.split)
qed

lemma imputeItems_synthesized:
  assumes "metricHandler h = Some mh" "activeHistory h = Some a" "summaryHandler h = Some sh"
    and "stepMetricsAvoid (Some mh) K" "'''' \<notin> K"
    and "\<forall>k. k \<notin> K \<longrightarrow> (k \<in> Key ` set flushed \<longleftrightarrow> k \<in> Key ` set (values_of a))"
  shows "\<exists>h'. imputeItems env h items = Inr (h', synthesizedItems env mh sh flushed items) \<and> frame h h'"
  using assms
proof (induction items arbitrary: h mh a flushed)
  case Nil
  then show ?case by (simp add: frame_refl)
next
  case (Cons item items)
  let ?r = "resolveMetric env mh (Key item)"
  let ?new = "(case imputedItem ?r a sh of None \<Rightarrow> [] | Some hi \<Rightarrow> [hi])"
  obtain h1 where 1: "imputeStepMetric env h item = Inr (h1, imputedItem ?r a sh)" "frame h h1"
     "activeHistory h1 = Some (UpdateValues a ?new)"
    using imputeStepMetric_result[OF Cons.prems(1,2,3), of env item] by blast
  obtain h0 where m: "matchHistoryItemMetric env h item = Inr (h0, ?r)"
    using matchHistoryItemMetric_result[OF Cons.prems(1), of env item] by blast
  have av: "stepMetricsAvoid (metricHandler h) K" using Cons.prems(1,4) by simp
  have g: "GetStepMetric ?r \<notin> K"
    using matchHistoryItemMetric_avoid[OF av Cons.prems(5) m] by simp
  have new: "?new = (case ?r of
            None \<Rightarrow> []
          | Some m \<Rightarrow>
              (if (case Options m of None \<Rightarrow> False | Some opts \<Rightarrow> StepSync opts)
                  \<and> StepMetric m \<noteq> ''''
                  \<and> StepMetric m \<notin> Key ` set flushed
               then (case consolidatedSummary sh (StepMetric m) of
                       None \<Rightarrow> []
                     | Some v \<Rightarrow> [\<lparr>Key = StepMetric m, ValueJson = v\<rparr>])
               else []))"
    using imputedItem_record[OF g Cons.prems(6)] .
  let ?mh1 = "registryAfter env mh (Key item)"
  have p1: "metricHandler h1 = Some ?mh1"
    using imputeStepMetric_registry[OF Cons.prems(1) 1(1)] .
  have p3: "summaryHandler h1 = Some sh" using 1(2) Cons.prems(3) by (simp add: frame_def)
  have p4: "stepMetricsAvoid (Some ?mh1) K"
    using imputeStepMetric_avoid[OF av Cons.prems(5) 1(1)] p1 by simp
  have p6: "\<forall>k. k \<notin> K \<longrightarrow> (k \<in> Key ` set (flushed @ ?new) \<longleftrightarrow> k \<in> Key ` set (values_of (UpdateValues a ?new)))"
    using Cons.prems(6) by (auto simp add: UpdateValues_def)
  from Cons.IH[OF p1 1(3) p3 p4 Cons.prems(5) p6]
  obtain h2 where 2: "imputeItems env h1 items = Inr (h2, synthesizedItems env ?mh1 sh (flushed @ ?new) items)"
     "frame h1 h2" by blast
  have "synthesizedItems env mh sh flushed (item # items)
          = ?new @ synthesizedItems env ?mh1 sh (flushed @ ?new) items"
    unfolding synthesizedItems.simps Let_def new[symmetric] by (rule refl)
  then show ?case
    using 1(1) 2 frame_trans[OF 1(2) 2(2)]
    by (intro exI[of _ h2]) (simp add: bindE_def del: synthesizedItems.simps)
qed

text \<open>
  What a flush synthesizes when no step metric is an internal key. The accumulator holds
  the items of the record being flushed, as it does at every call of flushHistory. The
  forwarded record is the given items, the internal items, and what the rule of
  step-metric imputation gives for each of these items in turn, where the presence of the
  step-metric key is tested on the record being flushed.
\<close>

lemma flushHistory_synthesizes:
  assumes "Item history \<noteq> []" and "activeHistory h = Some ah"
    and "metricHandler h = Some mh" and "summaryHandler h = Some sh"
    and "values_of ah = Item history"
    and "stepMetricsAvoid (Some mh) {''_runtime'', ''_step''}"
    and "flushed = Item history @ internalItems env h ah history"
  shows "\<exists>h' evs. flushHistory env h history = Inr h'
         \<and> events h' = events h @ evs @
              [Fwd \<lparr>RecordType = Record_History
                      \<lparr>Step = Step history, Item = flushed @ synthesizedItems env mh sh flushed flushed\<rparr>,
                    RControl = None, Uuid = ''''\<rparr>]
         \<and> forwardedHistory evs = []"
proof -
  let ?K = "{''_runtime'', ''_step''}"
  let ?h1 = "afterTimestamp env h ah"
  have p: "metricHandler ?h1 = Some mh" "activeHistory ?h1 = Some ah" "summaryHandler ?h1 = Some sh"
    "frame h ?h1"
    using assms(2,3,4) afterTimestamp_frame[of h env ah] by (auto simp add: frame_def)
  have inv: "\<forall>k. k \<notin> ?K \<longrightarrow> (k \<in> Key ` set flushed \<longleftrightarrow> k \<in> Key ` set (values_of ah))"
    using assms(5,7) by (auto simp add: internalItems_def)
  have e: "'''' \<notin> ?K" by simp
  from imputeItems_synthesized[OF p(1,2,3) assms(6) e inv, of env flushed]
  obtain h2 where i: "imputeItems env ?h1 flushed = Inr (h2, synthesizedItems env mh sh flushed flushed)"
     "frame ?h1 h2" by blast
  have "frame h h2" using frame_trans[OF p(4) i(2)] .
  then obtain evs where evs: "events h2 = events h @ evs" "list_all metricEvent evs"
    by (auto simp add: frame_def)
  have fl: "flushHistory env h history
              = Inr (finishFlush env h2 history (flushed @ synthesizedItems env mh sh flushed flushed))"
    using flushHistory_unfold[OF assms(1,2), of env] assms(3) i(1) assms(7)
    by (simp add: bindE_def)
  show ?thesis
    using fl evs forwardedHistory_metric[OF evs(2)]
    by (intro exI[of _ "finishFlush env h2 history (flushed @ synthesizedItems env mh sh flushed flushed)"]
              exI[of _ evs])
       (simp add: finishFlush_fields)
qed

lemma handlePartialHistorySync_drop:
  assumes "ReqStep request = Some rs"
    and "ah0 = (case activeHistory h of
                  None \<Rightarrow> NewActiveHistory (Some \<lparr>Num = GetStartingStep (runRecord h)\<rparr>) (Some FlushWithStep)
                | Some a \<Rightarrow> a)"
    and "step ah0 = Some cur"
    and "Num rs <s Num cur"
  shows "handlePartialHistorySync env h request =
      Inr (h\<lparr>activeHistory := Some ah0,
             internalPrinter := internalPrinter h @ [stepWarning (Num rs) (Num cur)],
             events := events h @ [LogWarn ''handlePartialHistorySync: ignoring history record'']\<rparr>)"
proof -
  have n: "\<not> Num cur <s Num rs" using assms(4) by (simp add: word_sless_alt)
  show ?thesis
    using assms n
    by (simp add: handlePartialHistorySync_def Let_def emit_def)
qed

lemma forwardedHistory_LogWarn [simp]: "forwardedHistory [LogWarn s] = []"
  by (simp add: forwardedHistory_def)

lemma handlePartialHistorySync_forwarded:
  assumes "ah0 = (case activeHistory h of
                    None \<Rightarrow> NewActiveHistory (Some \<lparr>Num = GetStartingStep (runRecord h)\<rparr>) (Some FlushWithStep)
                  | Some a \<Rightarrow> a)"
    and "step ah0 = Some \<lparr>Num = cur\<rparr>"
    and "flush ah0 \<noteq> Some FlushWithoutStep"
    and "ReqStep request = None \<or> (\<exists>rs. ReqStep request = Some \<lparr>Num = rs\<rparr> \<and> \<not> rs <s cur)"
    and "metricHandler h = None \<or> summaryHandler h \<noteq> None"
    and "base = (case ReqStep request of None \<Rightarrow> cur | Some rs \<Rightarrow> Num rs)"
    and "acc = (if cur <s base then [] else values_of ah0) @ ReqItem request"
    and "cond = ((ReqStep request = None \<and> ReqAction request = None) \<or> GetFlush (ReqAction request))"
  shows "\<exists>h' rest0 rest1. handlePartialHistorySync env h request = Inr h' \<and> keeps h h'
      \<and> activeHistory h' = Some (ah0\<lparr>values_of := (if cond then [] else acc),
                                      step := Some \<lparr>Num = (if cond then base + 1 else base)\<rparr>\<rparr>)
      \<and> forwardedHistory (events h') = forwardedHistory (events h)
          @ (if cur <s base \<and> values_of ah0 \<noteq> [] \<and> flush ah0 \<noteq> None
             then [\<lparr>Step = Some \<lparr>Num = cur\<rparr>, Item = values_of ah0 @ rest0\<rparr>] else [])
          @ (if cond \<and> acc \<noteq> [] \<and> flush ah0 \<noteq> None
             then [\<lparr>Step = Some \<lparr>Num = base\<rparr>, Item = acc @ rest1\<rparr>] else [])"
proof -
  from handlePartialHistorySync_ok[OF assms(1,2,4,5,6,7,8), of env]
  obtain h' evs1 evs2 where 1: "handlePartialHistorySync env h request = Inr h'" "keeps h h'"
      "activeHistory h' = Some (ah0\<lparr>values_of := (if cond then [] else acc),
                                      step := Some \<lparr>Num = (if cond then base + 1 else base)\<rparr>\<rparr>)"
      "events h' = events h @ evs1 @ evs2"
      "flushEvents evs1 (cur <s base \<and> values_of ah0 \<noteq> [] \<and> flush ah0 \<noteq> None)
           (callbackStep ah0 (Some \<lparr>Num = cur\<rparr>)) (values_of ah0)"
      "flushEvents evs2 (cond \<and> acc \<noteq> [] \<and> flush ah0 \<noteq> None)
           (callbackStep ah0 (Some \<lparr>Num = base\<rparr>)) acc"
    by blast
  have cb: "flush ah0 \<noteq> None \<Longrightarrow> callbackStep ah0 s = s" for s
    using assms(3) by (cases "flush ah0") (auto simp add: callbackStep_def split: FlushCallback.split)
  obtain rest0 where r0: "forwardedHistory evs1 =
      (if cur <s base \<and> values_of ah0 \<noteq> [] \<and> flush ah0 \<noteq> None
       then [\<lparr>Step = Some \<lparr>Num = cur\<rparr>, Item = values_of ah0 @ rest0\<rparr>] else [])"
    using flushEvents_forwarded[OF 1(5)] cb by (cases "cur <s base \<and> values_of ah0 \<noteq> [] \<and> flush ah0 \<noteq> None") auto
  obtain rest1 where r1: "forwardedHistory evs2 =
      (if cond \<and> acc \<noteq> [] \<and> flush ah0 \<noteq> None
       then [\<lparr>Step = Some \<lparr>Num = base\<rparr>, Item = acc @ rest1\<rparr>] else [])"
    using flushEvents_forwarded[OF 1(6)] cb by (cases "cond \<and> acc \<noteq> [] \<and> flush ah0 \<noteq> None") auto
  show ?thesis
    using 1(1,2,3) 1(4) r0 r1
    by (intro exI[of _ h'] exI[of _ rest0] exI[of _ rest1]) simp
qed


lemmas example_defs = exampleEnv_def exampleHandler_def exampleRequest_def exampleRegression_def
  exampleSameStep_def exampleAccumulator_def examplePending_def exampleHistory_def
  exampleLossMetric_def exampleMetricHandler_def exampleSummary_def exampleWithMetrics_def
  exampleSync_def exampleDefer_def exampleExit_def exampleRuntimeHistory_def
  exampleEmptyRequest_def exampleWithoutStats_def examplePollExit_def exampleStepMetric_def
  exampleStepMetricRecord_def exampleRegistry_def exampleAccMetric_def exampleTwoItems_def
  exampleTwoMetrics_def exampleOtherKey_def

lemmas eval_defs = handlePartialHistorySync_def ActiveHistory_Flush_def flushHistory_def
  handleHistory_def bindE_def Let_def NewActiveHistory_def UpdateValues_def UpdateStep_def
  GetItem_def Clear_def GetStartingStep_def GetFlush_def GetNum_def sampleHistory_def
  fwdRecord_def emit_def ConsolidateSummaryItems_def updateSummaryDelta_def fmtInt_def
  natToDec.simps digitChar_def forwardedHistory_def stepWarning_def

lemma examplePending_facts:
  "Item exampleHistory \<noteq> []"
  "activeHistory examplePending = Some exampleAccumulator"
  "metricHandler examplePending = None \<or> summaryHandler examplePending \<noteq> None"
  by (simp_all add: exampleHistory_def examplePending_def exampleHandler_def)

lemma imputeStepMetric_characterisation_example:
  "(\<exists>h'. imputeStepMetric exampleEnv exampleWithMetrics \<lparr>Key = ''loss'', ValueJson = ''5''\<rparr>
            = Inr (h', Some \<lparr>Key = ''epoch'', ValueJson = ''7''\<rparr>))
   \<and> (\<exists>h' evs. flushHistory exampleEnv exampleWithMetrics
                   \<lparr>Step = Some \<lparr>Num = 5\<rparr>, Item = [\<lparr>Key = ''loss'', ValueJson = ''5''\<rparr>]\<rparr> = Inr h'
         \<and> events h' = events exampleWithMetrics @ evs @
              [Fwd \<lparr>RecordType = Record_History
                      \<lparr>Step = Some \<lparr>Num = 5\<rparr>,
                       Item = [\<lparr>Key = ''loss'', ValueJson = ''5''\<rparr>,
                               \<lparr>Key = ''_runtime'', ValueJson = ''700''\<rparr>,
                               \<lparr>Key = ''_step'', ValueJson = ''5''\<rparr>,
                               \<lparr>Key = ''epoch'', ValueJson = ''7''\<rparr>]\<rparr>,
                    RControl = None, Uuid = ''''\<rparr>]
         \<and> forwardedHistory evs = [])"
proof -
  have a: "metricHandler exampleWithMetrics = Some exampleMetricHandler"
    "activeHistory exampleWithMetrics = Some exampleAccumulator"
    "summaryHandler exampleWithMetrics = Some exampleSummary"
    by (simp_all add: exampleWithMetrics_def examplePending_def)
  have f: "fmtInt 700 = ''700''" "fmtInt 5 = ''5''"
    by (simp_all add: fmtInt_def natToDec.simps digitChar_def)
  show ?thesis
    using imputeStepMetric_characterisation[OF a refl refl, of exampleEnv
            "\<lparr>Key = ''loss'', ValueJson = ''5''\<rparr>" "Some \<lparr>Num = 5\<rparr>"]
    by (simp add: exampleMetricHandler_def exampleLossMetric_def exampleSummary_def
          exampleAccumulator_def exampleEnv_def exampleWithMetrics_def examplePending_def
          exampleHandler_def HasPrefix_def GetItem_def internalItems_def runTimeOf_def GetNum_def f)
qed

lemma handleRequestDefer_effects_example:
  "\<exists>h1. handleRequestDefer exampleEnv exampleHandler exampleDefer \<lparr>State = END\<rparr> =
           Inr (h1\<lparr>events := events h1 @
                  [Fwd (exampleDefer\<lparr>RControl := Some \<lparr>AlwaysSend = True, Local = True, ReqResp = False\<rparr>\<rparr>)]\<rparr>)
       \<and> events h1 = [SetDoneCalled]
       \<and> map_option isDone (fileTransferStats h1) = Some True"
proof -
  have a: "State \<lparr>State = END\<rparr> = FLUSH_PARTIAL_HISTORY
             \<longrightarrow> metricHandler exampleHandler = None \<or> summaryHandler exampleHandler \<noteq> None"
    "State \<lparr>State = END\<rparr> = FLUSH_SUM \<longrightarrow> summaryHandler exampleHandler \<noteq> None"
    "State \<lparr>State = END\<rparr> = END \<longrightarrow> fileTransferStats exampleHandler \<noteq> None"
    by (simp_all add: exampleHandler_def)
  have e: "events exampleHandler = []" "RControl exampleDefer = None"
    by (simp_all add: exampleHandler_def exampleDefer_def)
  show ?thesis
    using handleRequestDefer_effects[OF a, of exampleEnv exampleDefer]
    by (auto simp add: e emptyControl_def)
qed

lemma flushHistory_synthesizes_example:
  "\<exists>h' evs. flushHistory exampleEnv exampleTwoMetrics \<lparr>Step = Some \<lparr>Num = 5\<rparr>, Item = exampleTwoItems\<rparr> = Inr h'
     \<and> events h' = events exampleTwoMetrics @ evs @
          [Fwd \<lparr>RecordType = Record_History
                  \<lparr>Step = Some \<lparr>Num = 5\<rparr>,
                   Item = [\<lparr>Key = ''loss'', ValueJson = ''5''\<rparr>,
                           \<lparr>Key = ''acc'', ValueJson = ''5''\<rparr>,
                           \<lparr>Key = ''_runtime'', ValueJson = ''0''\<rparr>,
                           \<lparr>Key = ''_step'', ValueJson = ''5''\<rparr>,
                           \<lparr>Key = ''epoch'', ValueJson = ''7''\<rparr>,
                           \<lparr>Key = ''iter'', ValueJson = ''3''\<rparr>]\<rparr>,
                RControl = None, Uuid = ''''\<rparr>]
     \<and> forwardedHistory evs = []"
proof -
  let ?ah = "\<lparr>values_of = exampleTwoItems, step = Some \<lparr>Num = 5\<rparr>, flush = Some FlushWithStep\<rparr>"
  let ?mh = "\<lparr>definedMetrics = [''loss'' \<mapsto> exampleLossMetric, ''acc'' \<mapsto> exampleAccMetric],
              globMetrics = []\<rparr>"
  let ?sh = "\<lparr>consolidatedSummary = [''epoch'' \<mapsto> ''7'', ''iter'' \<mapsto> ''3''], summaryDelta = []\<rparr>"
  let ?history = "\<lparr>Step = Some \<lparr>Num = 5\<rparr>, Item = exampleTwoItems\<rparr>"
  have a: "Item ?history \<noteq> []" "activeHistory exampleTwoMetrics = Some ?ah"
    "metricHandler exampleTwoMetrics = Some ?mh" "summaryHandler exampleTwoMetrics = Some ?sh"
    "values_of ?ah = Item ?history"
    by (simp_all add: exampleTwoMetrics_def exampleTwoItems_def)
  have b: "stepMetricsAvoid (Some ?mh) {''_runtime'', ''_step''}"
    by (auto simp add: stepMetricsAvoid_def exampleLossMetric_def exampleAccMetric_def split: if_splits)
  have f: "fmtInt 0 = ''0''" "fmtInt 5 = ''5''"
    by (simp_all add: fmtInt_def natToDec.simps digitChar_def)
  have i: "internalItems exampleEnv exampleTwoMetrics ?ah ?history
             = [\<lparr>Key = ''_runtime'', ValueJson = ''0''\<rparr>, \<lparr>Key = ''_step'', ValueJson = ''5''\<rparr>]"
    by (simp add: internalItems_def runTimeOf_def GetItem_def exampleTwoItems_def exampleTwoMetrics_def
          exampleHandler_def exampleEnv_def GetNum_def f)
  show ?thesis
    using flushHistory_synthesizes[OF a b refl, of exampleEnv, unfolded i]
    by (simp add: exampleTwoItems_def resolveMetric_def registryAfter_def HasPrefix_def
          exampleLossMetric_def exampleAccMetric_def)
qed

section \<open>Properties\<close>

text \<open>
  C1. In the client-stepped mode, a partial-history request whose step is below the current
  step of the accumulator is dropped: the handler returns with the accumulator as it was
  (created empty at the starting step if there was none), nothing forwarded and no other
  field touched (so the summary is unchanged); one warning is logged, and one message is
  queued on the printer, in which the request's step and the current step both appear.
\<close>

theorem handlePartialHistorySync_regression:
  assumes "ReqStep request = Some rs"
    and "ah0 = (case activeHistory h of
                  None \<Rightarrow> NewActiveHistory (Some \<lparr>Num = GetStartingStep (runRecord h)\<rparr>) (Some FlushWithStep)
                | Some a \<Rightarrow> a)"
    and "step ah0 = Some cur"
    and "Num rs <s Num cur"
  shows "\<exists>msg pre mid post.
           handlePartialHistorySync env h request =
             Inr (h\<lparr>activeHistory := Some ah0,
                    internalPrinter := internalPrinter h @ [msg],
                    events := events h @ [LogWarn ''handlePartialHistorySync: ignoring history record'']\<rparr>)
         \<and> msg = pre @ fmtInt (sint (Num rs)) @ mid @ fmtInt (sint (Num cur)) @ post"
proof -
  have n: "\<not> Num cur <s Num rs" using assms(4) by (simp add: word_sless_alt)
  have "handlePartialHistorySync env h request =
      Inr (h\<lparr>activeHistory := Some ah0,
             internalPrinter := internalPrinter h @ [stepWarning (Num rs) (Num cur)],
             events := events h @ [LogWarn ''handlePartialHistorySync: ignoring history record'']\<rparr>)"
    using assms n
    by (simp add: handlePartialHistorySync_def Let_def emit_def)
  then show ?thesis
    unfolding stepWarning_def by blast
qed

theorem handlePartialHistorySync_regression_witness:
  "\<exists>msg pre mid post.
     handlePartialHistorySync exampleEnv examplePending exampleRegression =
       Inr (examplePending\<lparr>activeHistory := Some exampleAccumulator,
              internalPrinter := internalPrinter examplePending @ [msg],
              events := events examplePending @ [LogWarn ''handlePartialHistorySync: ignoring history record'']\<rparr>)
   \<and> msg = pre @ ''3'' @ mid @ ''5'' @ post"
proof -
  have a: "ReqStep exampleRegression = Some \<lparr>Num = 3\<rparr>" by (simp add: exampleRegression_def)
  have b: "exampleAccumulator = (case activeHistory examplePending of
                  None \<Rightarrow> NewActiveHistory (Some \<lparr>Num = GetStartingStep (runRecord examplePending)\<rparr>) (Some FlushWithStep)
                | Some a \<Rightarrow> a)" by (simp add: examplePending_def)
  have c: "step exampleAccumulator = Some \<lparr>Num = 5\<rparr>" by (simp add: exampleAccumulator_def)
  have d: "Num \<lparr>Num = 3\<rparr> <s Num \<lparr>Num = (5 :: int64)\<rparr>" by simp
  have f: "fmtInt 3 = ''3''" "fmtInt 5 = ''5''"
    by (simp_all add: fmtInt_def natToDec.simps digitChar_def)
  show ?thesis
    using handlePartialHistorySync_regression[OF a b c d, of exampleEnv] by (simp add: f)
qed

text \<open>
  C2. Every flush of a history record with items returns and forwards the record with a
  \<open>_runtime\<close> item right behind the items it was given. Its value is the printed
  difference of the parsed \<open>_timestamp\<close> of the accumulator and the start time of the
  run when there is such an item (and it parses), and the printed zero when there is none
  (or it does not parse).
\<close>

theorem flushHistory_runtime_item:
  assumes "Item history \<noteq> []" and "activeHistory h = Some ah"
    and "metricHandler h = None \<or> summaryHandler h \<noteq> None"
  shows "\<exists>h' evs rest.
           flushHistory env h history = Inr h'
         \<and> events h' = events h @ evs @
              [Fwd \<lparr>RecordType = Record_History
                      \<lparr>Step = Step history,
                       Item = Item history @
                         [\<lparr>Key = ''_runtime'',
                           ValueJson = fmtFloat64 env
                             (case GetItem ah ''_timestamp'' of
                                None \<Rightarrow> zeroFloat64 env
                              | Some item \<Rightarrow>
                                  (case parseFloat64 env (ValueJson item) of
                                     None \<Rightarrow> zeroFloat64 env
                                   | Some ts \<Rightarrow> subFloat64 env ts (startTimeMicro (timer h))))\<rparr>]
                         @ rest\<rparr>,
                    RControl = None, Uuid = ''''\<rparr>]
         \<and> forwardedHistory evs = []"
proof -
  from flushHistory_ok[OF assms(2,3,1), of env]
  obtain h2 steps evs where f: "flushHistory env h history
              = Inr (finishFlush env h2 history (Item history @ internalItems env h ah history @ steps))"
     "frame h h2" "events h2 = events h @ evs" "list_all metricEvent evs"
    by blast
  show ?thesis
    using f forwardedHistory_metric[OF f(4)]
    by (intro exI[of _ "finishFlush env h2 history (Item history @ internalItems env h ah history @ steps)"]
              exI[of _ evs]
              exI[of _ "(if XShared (settings h) then []
                         else [\<lparr>Key = ''_step'', ValueJson = fmtInt (sint (GetNum (Step history)))\<rparr>]) @ steps"])
       (simp add: finishFlush_fields internalItems_def runTimeOf_def)
qed

theorem flushHistory_runtime_item_witness:
  "\<exists>h' evs rest.
     flushHistory exampleEnv examplePending exampleHistory = Inr h'
   \<and> events h' = events examplePending @ evs @
        [Fwd \<lparr>RecordType = Record_History
                \<lparr>Step = Some \<lparr>Num = 5\<rparr>,
                 Item = [\<lparr>Key = ''loss'', ValueJson = ''5''\<rparr>, \<lparr>Key = ''_timestamp'', ValueJson = ''1700''\<rparr>]
                        @ [\<lparr>Key = ''_runtime'', ValueJson = ''700''\<rparr>] @ rest\<rparr>,
              RControl = None, Uuid = ''''\<rparr>]
   \<and> forwardedHistory evs = []"
proof -
  have f: "fmtInt 700 = ''700''" by (simp add: fmtInt_def natToDec.simps digitChar_def)
  show ?thesis
    using flushHistory_runtime_item[OF examplePending_facts, of exampleEnv]
    by (simp add: exampleHistory_def exampleAccumulator_def exampleEnv_def examplePending_def
          exampleHandler_def GetItem_def f)
qed




text \<open>
  C4 fails on the code where a metric names an internal key as its step metric. The metric
  loss is defined with the step metric _step and step_sync set, and one partial-history
  request, with the item loss and the flush flag, is handled twice in the client-stepped
  mode. In the second flush the record being flushed already holds the item _step = 6 that
  flushHistory has appended, and still a second item with the key _step is synthesized,
  with the value 5 that the first flush left in the summary: imputeStepMetric looks the
  key up in the active history, which does not receive the internal items. The stale item
  comes last, so the summary keeps the step 5. Where no step metric is an internal key,
  the flush synthesizes what the claim says, item by item (lemma flushHistory_synthesizes).
\<close>

theorem flushHistory_duplicate_step_item:
  "\<exists>h1 h2 h3.
     handleMetric exampleRegistry exampleStepMetricRecord exampleStepMetric = Inr h1
   \<and> handlePartialHistorySync exampleEnv h1 exampleRequest = Inr h2
   \<and> handlePartialHistorySync exampleEnv h2 exampleRequest = Inr h3
   \<and> forwardedHistory (events h3) =
        [\<lparr>Step = Some \<lparr>Num = 5\<rparr>,
          Item = [\<lparr>Key = ''loss'', ValueJson = ''5''\<rparr>,
                  \<lparr>Key = ''_runtime'', ValueJson = ''0''\<rparr>,
                  \<lparr>Key = ''_step'', ValueJson = ''5''\<rparr>]\<rparr>,
         \<lparr>Step = Some \<lparr>Num = 6\<rparr>,
          Item = [\<lparr>Key = ''loss'', ValueJson = ''5''\<rparr>,
                  \<lparr>Key = ''_runtime'', ValueJson = ''0''\<rparr>,
                  \<lparr>Key = ''_step'', ValueJson = ''6''\<rparr>,
                  \<lparr>Key = ''_step'', ValueJson = ''5''\<rparr>]\<rparr>]
   \<and> map_option (\<lambda>sh. consolidatedSummary sh ''_step'') (summaryHandler h3) = Some (Some ''5'')"
  by (simp add: example_defs eval_defs handleMetric_def handleStepMetric_def localControl_def
        imputeStepMetric_def matchHistoryItemMetric_def HasPrefix_def GetStepMetric_def
        GetStepSync_def)

text \<open>
  C5 fails on the code for a handler without file-transfer statistics. In state END
  handleRequestDefer calls SetDone on the collaborator without testing for its absence:
  the call panics, nothing is marked done and the defer record is not forwarded.
  handleRequestPollExit does test for the absent collaborator and answers done on the same
  handler. With the collaborators present, every state runs its side effect and then
  forwards the record once, as the last event, with always_send and local set (lemma
  handleRequestDefer_effects).
\<close>

theorem handleRequestDefer_END_without_stats:
  "fileTransferStats exampleWithoutStats = None
   \<and> handleRequestDefer exampleEnv exampleWithoutStats exampleDefer \<lparr>State = END\<rparr> = Inl NilPointer
   \<and> events (handleRequestPollExit exampleWithoutStats examplePollExit) =
        [Out \<lparr>Response = Response_PollExitResponse
                 \<lparr>PusherStats = None, FileCountsOf = None, Done = True\<rparr>,
               ResultControl = None, ResultUuid = ''p1''\<rparr>]"
  by (simp add: exampleWithoutStats_def exampleHandler_def examplePollExit_def
        handleRequestDefer_def bindE_def handleRequestPollExit_def respond_def emit_def)



text \<open>
  C7, as amended. A flushed record is forwarded with exactly one \<open>_runtime\<close> item and,
  outside the shared mode, exactly one \<open>_step\<close> item, which carries the step of the record,
  provided that no item handed to the flush has one of these two keys and no metric
  definition has one of them as its step metric. The flush appends the two items without
  looking at the keys that are already there, so the claim as stated fails for a record
  that brings its own \<open>_runtime\<close> item, see the counterexample.
\<close>

theorem flushHistory_internal_once:
  assumes "Item history \<noteq> []" and "activeHistory h = Some ah"
    and "metricHandler h = None \<or> summaryHandler h \<noteq> None"
    and "\<forall>i \<in> set (Item history). Key i \<noteq> ''_runtime'' \<and> Key i \<noteq> ''_step''"
    and "stepMetricsAvoid (metricHandler h) {''_runtime'', ''_step''}"
  shows "\<exists>h' evs items.
           flushHistory env h history = Inr h'
         \<and> events h' = events h @ evs @
              [Fwd \<lparr>RecordType = Record_History \<lparr>Step = Step history, Item = items\<rparr>, RControl = None, Uuid = ''''\<rparr>]
         \<and> forwardedHistory evs = []
         \<and> length (filter (\<lambda>i. Key i = ''_runtime'') items) = 1
         \<and> filter (\<lambda>i. Key i = ''_step'') items =
             (if XShared (settings h) then []
              else [\<lparr>Key = ''_step'', ValueJson = fmtInt (sint (GetNum (Step history)))\<rparr>])"
proof -
  let ?K = "{''_runtime'', ''_step''}"
  let ?h1 = "afterTimestamp env h ah"
  let ?items2 = "Item history @ internalItems env h ah history"
  have user: "filter (\<lambda>i. Key i = ''_runtime'') (Item history) = []"
    "filter (\<lambda>i. Key i = ''_step'') (Item history) = []"
    using assms(4) by (auto simp add: filter_empty_conv)
  obtain h2 steps evs where f: "flushHistory env h history
              = Inr (finishFlush env h2 history (?items2 @ steps))"
     "events h2 = events h @ evs" "list_all metricEvent evs"
     and st: "\<forall>hi \<in> set steps. Key hi \<notin> ?K"
  proof (cases "metricHandler h")
    case None
    obtain evs where "events ?h1 = events h @ evs" "list_all metricEvent evs"
      using afterTimestamp_frame[of h env ah] by (auto simp add: frame_def)
    then show ?thesis
      using that[of ?h1 "[]" evs] None flushHistory_unfold[OF assms(1,2), of env] by simp
  next
    case (Some mh)
    have p: "metricHandler ?h1 \<noteq> None" "summaryHandler ?h1 \<noteq> None" "activeHistory ?h1 = Some ah"
      "stepMetricsAvoid (metricHandler ?h1) ?K"
      using Some assms(2,3,5) afterTimestamp_frame[of h env ah] by (auto simp add: frame_def)
    from imputeItems_ok[OF p(1) p(3) p(2), of env ?items2]
    obtain h2 steps where i: "imputeItems env ?h1 ?items2 = Inr (h2, steps)" "frame ?h1 h2"
      by blast
    have fr: "frame h h2" using frame_trans[OF _ i(2)] afterTimestamp_frame[of h env ah] by blast
    then obtain evs where e: "events h2 = events h @ evs" "list_all metricEvent evs"
      by (auto simp add: frame_def)
    have "\<forall>hi \<in> set steps. Key hi \<notin> ?K"
      using imputeItems_avoid[OF p(4) _ i(1)] by simp
    then show ?thesis
      using that[of h2 steps evs] Some i(1) e flushHistory_unfold[OF assms(1,2), of env]
      by (simp add: bindE_def)
  qed
  have s1: "filter (\<lambda>i. Key i = ''_runtime'') steps = []" "filter (\<lambda>i. Key i = ''_step'') steps = []"
    using st by (auto simp add: filter_empty_conv)
  show ?thesis
    using f s1 user forwardedHistory_metric[OF f(3)]
    by (intro exI[of _ "finishFlush env h2 history (?items2 @ steps)"] exI[of _ evs]
              exI[of _ "?items2 @ steps"])
       (simp add: finishFlush_fields internalItems_def)
qed

theorem flushHistory_internal_once_counterexample:
  "\<exists>h' r. handleHistory exampleEnv exampleHandler exampleRuntimeHistory = Inr h'
     \<and> forwardedHistory (events h') = [r]
     \<and> length (filter (\<lambda>i. Key i = ''_runtime'') (Item r)) = 2"
  by (simp add: example_defs eval_defs)

theorem flushHistory_internal_once_witness:
  "\<exists>h' evs items.
     flushHistory exampleEnv examplePending exampleHistory = Inr h'
   \<and> events h' = events examplePending @ evs @
        [Fwd \<lparr>RecordType = Record_History \<lparr>Step = Step exampleHistory, Item = items\<rparr>,
              RControl = None, Uuid = ''''\<rparr>]
   \<and> forwardedHistory evs = []
   \<and> length (filter (\<lambda>i. Key i = ''_runtime'') items) = 1
   \<and> filter (\<lambda>i. Key i = ''_step'') items = [\<lparr>Key = ''_step'', ValueJson = ''5''\<rparr>]"
proof -
  have u: "\<forall>i \<in> set (Item exampleHistory). Key i \<noteq> ''_runtime'' \<and> Key i \<noteq> ''_step''"
    by (simp add: exampleHistory_def)
  have m: "stepMetricsAvoid (metricHandler examplePending) {''_runtime'', ''_step''}"
    by (simp add: examplePending_def exampleHandler_def stepMetricsAvoid_def)
  have f: "fmtInt 5 = ''5''" by (simp add: fmtInt_def natToDec.simps digitChar_def)
  show ?thesis
    using flushHistory_internal_once[OF examplePending_facts u m, of exampleEnv]
    by (simp add: examplePending_def exampleHandler_def exampleHistory_def GetNum_def f)
qed




text \<open>
  C9, as amended. In the client-stepped mode one request with the flush flag is handled
  twice in a row. The request has no step, or a step that is not below the current step
  (and is not the largest int64). The accumulator has a current step and the flush
  callback of this mode, or none (the one a standalone History record leaves behind), and
  holds the pending items; the summary handler is present whenever metrics are defined.
  A flush forwards a record only when there are items to flush and a callback. Without a
  step in the request, the first run forwards the pending items followed by the items of
  the request in one record for the current step, and the second run forwards the items
  of the request again, in a record for the next step. With a step in the request, the
  first run forwards the pending items, in a record of their own for the current step when
  the step of the request is above it and in one record with the items of the request
  otherwise, and the items of the request in a record for the step of the request; the
  second run is dropped as a step regression, with its warning on the printer. So a
  request without items has exactly one record forwarded when items were pending and none
  otherwise, and no run forwards a record that holds nothing but the items that
  flushHistory itself appends.
\<close>

theorem partial_history_replay:
  assumes "ah0 = (case activeHistory h of
                    None \<Rightarrow> NewActiveHistory (Some \<lparr>Num = GetStartingStep (runRecord h)\<rparr>) (Some FlushWithStep)
                  | Some a \<Rightarrow> a)"
    and "step ah0 = Some \<lparr>Num = cur\<rparr>"
    and "flush ah0 \<noteq> Some FlushWithoutStep"
    and "metricHandler h = None \<or> summaryHandler h \<noteq> None"
    and "ReqAction request = Some \<lparr>Flush = True\<rparr>"
    and "items = ReqItem request"
    and "pending = values_of ah0"
  shows "(ReqStep request = None \<longrightarrow>
           (\<exists>h1 h2 rest1 rest2.
              handlePartialHistorySync env h request = Inr h1
            \<and> handlePartialHistorySync env h1 request = Inr h2
            \<and> forwardedHistory (events h2) = forwardedHistory (events h) @
                (if flush ah0 = None then []
                 else (if pending @ items = [] then []
                       else [\<lparr>Step = Some \<lparr>Num = cur\<rparr>, Item = pending @ items @ rest1\<rparr>])
                    @ (if items = [] then []
                       else [\<lparr>Step = Some \<lparr>Num = cur + 1\<rparr>, Item = items @ rest2\<rparr>]))))
       \<and> (\<forall>rs. ReqStep request = Some \<lparr>Num = rs\<rparr> \<and> \<not> rs <s cur \<and> rs <s rs + 1 \<longrightarrow>
           (\<exists>h1 h2 rest0 rest1.
              handlePartialHistorySync env h request = Inr h1
            \<and> handlePartialHistorySync env h1 request = Inr h2
            \<and> internalPrinter h2 = internalPrinter h @ [stepWarning rs (rs + 1)]
            \<and> forwardedHistory (events h2) = forwardedHistory (events h) @
                (if flush ah0 = None then []
                 else if cur <s rs
                 then (if pending = [] then []
                       else [\<lparr>Step = Some \<lparr>Num = cur\<rparr>, Item = pending @ rest0\<rparr>])
                    @ (if items = [] then []
                       else [\<lparr>Step = Some \<lparr>Num = rs\<rparr>, Item = items @ rest1\<rparr>])
                 else (if pending @ items = [] then []
                       else [\<lparr>Step = Some \<lparr>Num = rs\<rparr>, Item = pending @ items @ rest1\<rparr>]))))"
proof (intro conjI impI allI)
  assume none: "ReqStep request = None"
  have c: "True = ((ReqStep request = None \<and> ReqAction request = None) \<or> GetFlush (ReqAction request))"
    using assms(5) by (simp add: GetFlush_def)
  have b: "cur = (case ReqStep request of None \<Rightarrow> cur | Some rs \<Rightarrow> Num rs)" using none by simp
  have acc: "pending @ items = (if cur <s cur then [] else values_of ah0) @ ReqItem request"
    using assms(6,7) by simp
  have nr: "ReqStep request = None \<or> (\<exists>rs. ReqStep request = Some \<lparr>Num = rs\<rparr> \<and> \<not> rs <s cur)"
    using none by simp
  from handlePartialHistorySync_forwarded[OF assms(1,2,3) nr assms(4) b acc c, of env]
  obtain h1 rest0 rest1 where 1: "handlePartialHistorySync env h request = Inr h1" "keeps h h1"
      "activeHistory h1 = Some (ah0\<lparr>values_of := [], step := Some \<lparr>Num = cur + 1\<rparr>\<rparr>)"
      "forwardedHistory (events h1) = forwardedHistory (events h)
          @ (if pending @ items \<noteq> [] \<and> flush ah0 \<noteq> None
             then [\<lparr>Step = Some \<lparr>Num = cur\<rparr>, Item = (pending @ items) @ rest1\<rparr>] else [])"
    by auto
  let ?a1 = "ah0\<lparr>values_of := [], step := Some \<lparr>Num = cur + 1\<rparr>\<rparr>"
  have a1: "?a1 = (case activeHistory h1 of
                    None \<Rightarrow> NewActiveHistory (Some \<lparr>Num = GetStartingStep (runRecord h1)\<rparr>) (Some FlushWithStep)
                  | Some a \<Rightarrow> a)" using 1(3) by simp
  have s1: "step ?a1 = Some \<lparr>Num = cur + 1\<rparr>" by simp
  have f1: "flush ?a1 \<noteq> Some FlushWithoutStep" using assms(3) by simp
  have m1: "metricHandler h1 = None \<or> summaryHandler h1 \<noteq> None"
    using assms(4) 1(2) by (auto simp add: keeps_def)
  have b1: "cur + 1 = (case ReqStep request of None \<Rightarrow> cur + 1 | Some rs \<Rightarrow> Num rs)" using none by simp
  have acc1: "items = (if cur + 1 <s cur + 1 then [] else values_of ?a1) @ ReqItem request"
    using assms(6) by simp
  have nr1: "ReqStep request = None \<or> (\<exists>rs. ReqStep request = Some \<lparr>Num = rs\<rparr> \<and> \<not> rs <s cur + 1)"
    using none by simp
  from handlePartialHistorySync_forwarded[OF a1 s1 f1 nr1 m1 b1 acc1 c, of env]
  obtain h2 rest2 rest3 where 2: "handlePartialHistorySync env h1 request = Inr h2"
      "forwardedHistory (events h2) = forwardedHistory (events h1)
          @ (if items \<noteq> [] \<and> flush ah0 \<noteq> None
             then [\<lparr>Step = Some \<lparr>Num = cur + 1\<rparr>, Item = items @ rest3\<rparr>] else [])"
    by auto
  show "\<exists>h1 h2 rest1 rest2.
              handlePartialHistorySync env h request = Inr h1
            \<and> handlePartialHistorySync env h1 request = Inr h2
            \<and> forwardedHistory (events h2) = forwardedHistory (events h) @
                (if flush ah0 = None then []
                 else (if pending @ items = [] then []
                       else [\<lparr>Step = Some \<lparr>Num = cur\<rparr>, Item = pending @ items @ rest1\<rparr>])
                    @ (if items = [] then []
                       else [\<lparr>Step = Some \<lparr>Num = cur + 1\<rparr>, Item = items @ rest2\<rparr>]))"
    using 1(1,4) 2
    by (intro exI[of _ h1] exI[of _ h2] exI[of _ rest1] exI[of _ rest3]) simp
next
  fix rs
  assume a: "ReqStep request = Some \<lparr>Num = rs\<rparr> \<and> \<not> rs <s cur \<and> rs <s rs + 1"
  have c: "True = ((ReqStep request = None \<and> ReqAction request = None) \<or> GetFlush (ReqAction request))"
    using assms(5) by (simp add: GetFlush_def)
  have b: "rs = (case ReqStep request of None \<Rightarrow> cur | Some rs \<Rightarrow> Num rs)" using a by simp
  have acc: "(if cur <s rs then [] else pending) @ items
               = (if cur <s rs then [] else values_of ah0) @ ReqItem request"
    using assms(6,7) by simp
  have nr: "ReqStep request = None \<or> (\<exists>rs. ReqStep request = Some \<lparr>Num = rs\<rparr> \<and> \<not> rs <s cur)"
    using a by auto
  from handlePartialHistorySync_forwarded[OF assms(1,2,3) nr assms(4) b acc c, of env]
  obtain h1 rest0 rest1 where 1: "handlePartialHistorySync env h request = Inr h1" "keeps h h1"
      "activeHistory h1 = Some (ah0\<lparr>values_of := [], step := Some \<lparr>Num = rs + 1\<rparr>\<rparr>)"
      "forwardedHistory (events h1) = forwardedHistory (events h)
          @ (if cur <s rs \<and> values_of ah0 \<noteq> [] \<and> flush ah0 \<noteq> None
             then [\<lparr>Step = Some \<lparr>Num = cur\<rparr>, Item = values_of ah0 @ rest0\<rparr>] else [])
          @ (if (if cur <s rs then [] else pending) @ items \<noteq> [] \<and> flush ah0 \<noteq> None
             then [\<lparr>Step = Some \<lparr>Num = rs\<rparr>, Item = ((if cur <s rs then [] else pending) @ items) @ rest1\<rparr>]
             else [])"
    by auto
  let ?a1 = "ah0\<lparr>values_of := [], step := Some \<lparr>Num = rs + 1\<rparr>\<rparr>"
  have a1: "?a1 = (case activeHistory h1 of
                    None \<Rightarrow> NewActiveHistory (Some \<lparr>Num = GetStartingStep (runRecord h1)\<rparr>) (Some FlushWithStep)
                  | Some a \<Rightarrow> a)" using 1(3) by simp
  have r1: "ReqStep request = Some \<lparr>Num = rs\<rparr>" using a by simp
  have r3: "step ?a1 = Some \<lparr>Num = rs + 1\<rparr>" by simp
  have r4: "Num \<lparr>Num = rs\<rparr> <s Num \<lparr>Num = rs + 1\<rparr>" using a by simp
  have 2: "handlePartialHistorySync env h1 request =
      Inr (h1\<lparr>activeHistory := Some ?a1,
             internalPrinter := internalPrinter h1 @ [stepWarning rs (rs + 1)],
             events := events h1 @ [LogWarn ''handlePartialHistorySync: ignoring history record'']\<rparr>)"
    using handlePartialHistorySync_drop[OF r1 a1 r3 r4, of env] by simp
  have p: "internalPrinter h1 = internalPrinter h" using 1(2) by (simp add: keeps_def)
  show "\<exists>h1 h2 rest0 rest1.
              handlePartialHistorySync env h request = Inr h1
            \<and> handlePartialHistorySync env h1 request = Inr h2
            \<and> internalPrinter h2 = internalPrinter h @ [stepWarning rs (rs + 1)]
            \<and> forwardedHistory (events h2) = forwardedHistory (events h) @
                (if flush ah0 = None then []
                 else if cur <s rs
                 then (if pending = [] then []
                       else [\<lparr>Step = Some \<lparr>Num = cur\<rparr>, Item = pending @ rest0\<rparr>])
                    @ (if items = [] then []
                       else [\<lparr>Step = Some \<lparr>Num = rs\<rparr>, Item = items @ rest1\<rparr>])
                 else (if pending @ items = [] then []
                       else [\<lparr>Step = Some \<lparr>Num = rs\<rparr>, Item = pending @ items @ rest1\<rparr>]))"
    using 1(1,4) 2 p assms(7)
    by (intro exI[of _ h1] exI[of _ "h1\<lparr>activeHistory := Some ?a1,
             internalPrinter := internalPrinter h1 @ [stepWarning rs (rs + 1)],
             events := events h1 @ [LogWarn ''handlePartialHistorySync: ignoring history record'']\<rparr>"]
              exI[of _ rest0] exI[of _ rest1])
       simp
qed

theorem partial_history_replay_counterexample:
  "(\<exists>h1 h2 r1 r2.
      handlePartialHistorySync exampleEnv exampleHandler exampleRequest = Inr h1
    \<and> handlePartialHistorySync exampleEnv h1 exampleRequest = Inr h2
    \<and> GetFlush (ReqAction exampleRequest)
    \<and> ReqItem exampleRequest = [\<lparr>Key = ''loss'', ValueJson = ''5''\<rparr>]
    \<and> forwardedHistory (events h2) = [r1, r2]
    \<and> \<lparr>Key = ''loss'', ValueJson = ''5''\<rparr> \<in> set (Item r2))
   \<and> (\<exists>h1 h2.
      handlePartialHistorySync exampleEnv exampleHandler exampleEmptyRequest = Inr h1
    \<and> handlePartialHistorySync exampleEnv h1 exampleEmptyRequest = Inr h2
    \<and> GetFlush (ReqAction exampleEmptyRequest)
    \<and> ReqItem exampleEmptyRequest = []
    \<and> forwardedHistory (events h2) = [])"
  by (simp add: example_defs eval_defs)

theorem partial_history_replay_witness:
  "(\<exists>h1 h2 rest1 rest2.
      handlePartialHistorySync exampleEnv exampleHandler exampleRequest = Inr h1
    \<and> handlePartialHistorySync exampleEnv h1 exampleRequest = Inr h2
    \<and> forwardedHistory (events h2) =
         [\<lparr>Step = Some \<lparr>Num = 5\<rparr>, Item = [\<lparr>Key = ''loss'', ValueJson = ''5''\<rparr>] @ rest1\<rparr>,
          \<lparr>Step = Some \<lparr>Num = 6\<rparr>, Item = [\<lparr>Key = ''loss'', ValueJson = ''5''\<rparr>] @ rest2\<rparr>])
   \<and> (\<exists>h1 h2 rest1.
      handlePartialHistorySync exampleEnv examplePending exampleOtherKey = Inr h1
    \<and> handlePartialHistorySync exampleEnv h1 exampleOtherKey = Inr h2
    \<and> internalPrinter h2 = [stepWarning 5 6]
    \<and> forwardedHistory (events h2) =
         [\<lparr>Step = Some \<lparr>Num = 5\<rparr>,
           Item = [\<lparr>Key = ''loss'', ValueJson = ''5''\<rparr>, \<lparr>Key = ''_timestamp'', ValueJson = ''1700''\<rparr>,
                   \<lparr>Key = ''val_loss'', ValueJson = ''5''\<rparr>] @ rest1\<rparr>])
   \<and> (\<exists>h0 h1 h2.
      handleHistory exampleEnv exampleHandler exampleHistory = Inr h0
    \<and> handlePartialHistorySync exampleEnv h0 exampleRequest = Inr h1
    \<and> handlePartialHistorySync exampleEnv h1 exampleRequest = Inr h2
    \<and> forwardedHistory (events h2) = forwardedHistory (events h0))"
proof -
  let ?a = "NewActiveHistory (Some \<lparr>Num = GetStartingStep (runRecord exampleHandler)\<rparr>) (Some FlushWithStep)"
  have a: "?a = (case activeHistory exampleHandler of
                    None \<Rightarrow> NewActiveHistory (Some \<lparr>Num = GetStartingStep (runRecord exampleHandler)\<rparr>) (Some FlushWithStep)
                  | Some a \<Rightarrow> a)"
    by (simp add: exampleHandler_def)
  have b: "step ?a = Some \<lparr>Num = 5\<rparr>" "flush ?a \<noteq> Some FlushWithoutStep"
    by (simp_all add: NewActiveHistory_def GetStartingStep_def exampleHandler_def)
  have c: "metricHandler exampleHandler = None \<or> summaryHandler exampleHandler \<noteq> None"
    "ReqAction exampleRequest = Some \<lparr>Flush = True\<rparr>"
    by (simp_all add: exampleHandler_def exampleRequest_def)
  have n: "ReqStep exampleRequest = None" "ReqItem exampleRequest = [\<lparr>Key = ''loss'', ValueJson = ''5''\<rparr>]"
    "values_of ?a = []" "flush ?a \<noteq> None" "events exampleHandler = []"
    by (simp_all add: exampleRequest_def NewActiveHistory_def exampleHandler_def)
  have 1: "\<exists>h1 h2 rest1 rest2.
      handlePartialHistorySync exampleEnv exampleHandler exampleRequest = Inr h1
    \<and> handlePartialHistorySync exampleEnv h1 exampleRequest = Inr h2
    \<and> forwardedHistory (events h2) =
         [\<lparr>Step = Some \<lparr>Num = 5\<rparr>, Item = [\<lparr>Key = ''loss'', ValueJson = ''5''\<rparr>] @ rest1\<rparr>,
          \<lparr>Step = Some \<lparr>Num = 6\<rparr>, Item = [\<lparr>Key = ''loss'', ValueJson = ''5''\<rparr>] @ rest2\<rparr>]"
    using partial_history_replay[OF a b c refl refl, of exampleEnv] n
    by (simp add: forwardedHistory_def)
  have a2: "exampleAccumulator = (case activeHistory examplePending of
                    None \<Rightarrow> NewActiveHistory (Some \<lparr>Num = GetStartingStep (runRecord examplePending)\<rparr>) (Some FlushWithStep)
                  | Some a \<Rightarrow> a)"
    by (simp add: examplePending_def)
  have b2: "step exampleAccumulator = Some \<lparr>Num = 5\<rparr>" "flush exampleAccumulator \<noteq> Some FlushWithoutStep"
    by (simp_all add: exampleAccumulator_def)
  have c2: "metricHandler examplePending = None \<or> summaryHandler examplePending \<noteq> None"
    "ReqAction exampleOtherKey = Some \<lparr>Flush = True\<rparr>"
    by (simp_all add: examplePending_def exampleHandler_def exampleOtherKey_def)
  have n2: "ReqStep exampleOtherKey = Some \<lparr>Num = 5\<rparr> \<and> \<not> (5 :: int64) <s 5 \<and> (5 :: int64) <s 5 + 1"
    by (simp add: exampleOtherKey_def)
  have m2: "ReqItem exampleOtherKey = [\<lparr>Key = ''val_loss'', ValueJson = ''5''\<rparr>]"
    "values_of exampleAccumulator = [\<lparr>Key = ''loss'', ValueJson = ''5''\<rparr>, \<lparr>Key = ''_timestamp'', ValueJson = ''1700''\<rparr>]"
    "flush exampleAccumulator \<noteq> None" "events examplePending = []" "internalPrinter examplePending = []"
    by (simp_all add: exampleOtherKey_def exampleAccumulator_def examplePending_def exampleHandler_def)
  have 2: "\<exists>h1 h2 rest1.
      handlePartialHistorySync exampleEnv examplePending exampleOtherKey = Inr h1
    \<and> handlePartialHistorySync exampleEnv h1 exampleOtherKey = Inr h2
    \<and> internalPrinter h2 = [stepWarning 5 6]
    \<and> forwardedHistory (events h2) =
         [\<lparr>Step = Some \<lparr>Num = 5\<rparr>,
           Item = [\<lparr>Key = ''loss'', ValueJson = ''5''\<rparr>, \<lparr>Key = ''_timestamp'', ValueJson = ''1700''\<rparr>,
                   \<lparr>Key = ''val_loss'', ValueJson = ''5''\<rparr>] @ rest1\<rparr>]"
    using partial_history_replay[OF a2 b2 c2 refl refl, of exampleEnv, THEN conjunct2, rule_format, OF n2] m2
    by (auto simp add: forwardedHistory_def)
  let ?left = "\<lparr>values_of = [], step = Some \<lparr>Num = 5\<rparr>, flush = None\<rparr>"
  have "\<exists>h0. handleHistory exampleEnv exampleHandler exampleHistory = Inr h0
          \<and> activeHistory h0 = Some ?left \<and> metricHandler h0 = None"
    by (simp add: example_defs eval_defs)
  then obtain h0 where h0: "handleHistory exampleEnv exampleHandler exampleHistory = Inr h0"
    "activeHistory h0 = Some ?left" "metricHandler h0 = None"
    by (elim exE conjE)
  have a3: "?left = (case activeHistory h0 of
                    None \<Rightarrow> NewActiveHistory (Some \<lparr>Num = GetStartingStep (runRecord h0)\<rparr>) (Some FlushWithStep)
                  | Some a \<Rightarrow> a)"
    using h0(2) by simp
  have b3: "step ?left = Some \<lparr>Num = 5\<rparr>" "flush ?left \<noteq> Some FlushWithoutStep" by simp_all
  have c3: "metricHandler h0 = None \<or> summaryHandler h0 \<noteq> None" using h0(3) by simp
  have "\<exists>h1 h2. handlePartialHistorySync exampleEnv h0 exampleRequest = Inr h1
    \<and> handlePartialHistorySync exampleEnv h1 exampleRequest = Inr h2
    \<and> forwardedHistory (events h2) = forwardedHistory (events h0)"
    using partial_history_replay[OF a3 b3 c3 c(2) refl refl, of exampleEnv] n(1)
    by simp
  then have 3: "\<exists>h0 h1 h2.
      handleHistory exampleEnv exampleHandler exampleHistory = Inr h0
    \<and> handlePartialHistorySync exampleEnv h0 exampleRequest = Inr h1
    \<and> handlePartialHistorySync exampleEnv h1 exampleRequest = Inr h2
    \<and> forwardedHistory (events h2) = forwardedHistory (events h0)"
    using h0(1) by blast
  show ?thesis using 1 2 3 by (intro conjI)
qed

text \<open>
  C10. A PollExit request is answered with exactly one result, appended to what the
  handler had sent before, carrying the record's control block and UUID. When the
  file-transfer statistics collaborator is absent the response has done = true and neither
  pusher_stats nor file_counts; when it is present the response carries what
  GetFilesStats, GetFileCounts and IsDone return. Nothing else of the handler changes.
\<close>

theorem handleRequestPollExit_response:
  "handleRequestPollExit h record =
     h\<lparr>events := events h @
        [Out \<lparr>Response = Response_PollExitResponse
                (case fileTransferStats h of
                   None \<Rightarrow> \<lparr>PusherStats = None, FileCountsOf = None, Done = True\<rparr>
                 | Some fs \<Rightarrow> \<lparr>PusherStats = Some (filesStats fs),
                              FileCountsOf = Some (fileCounts fs), Done = isDone fs\<rparr>),
              ResultControl = RControl record, ResultUuid = Uuid record\<rparr>]\<rparr>"
  by (simp add: handleRequestPollExit_def respond_def emit_def split: option.split)

end
